theory Spec2Isabelle
  imports Main "HOL-Library.Sublist" "HOL-Library.Multiset"
begin

section \<open>The client certificate criterion of pkg/policy/criteria\<close>

text \<open>
  The development embeds \<^verbatim>\<open>pkg/policy/criteria/client_certificate.go\<close>: the six
  condition builders, the fingerprint canonicaliser and
  \<^verbatim>\<open>clientCertificateCriterion.GenerateRule\<close>. An error is the text of its
  message, a fallible function returns \<open>error + 'a\<close> with \<open>Inl\<close> the error, and a
  builder that appends to \<^verbatim>\<open>*body\<close> takes the body and returns the new one.
\<close>

subsection \<open>Configuration values (package parser)\<close>

text \<open>
  Modelled from the spec: the type \<^verbatim>\<open>parser.Value\<close> is declared outside the file.
  The spec gives its three shapes: a string, an order-preserving sequence of values and
  an object, a mapping from distinct string keys to values. An object is kept as the list
  of its entries; the list's order carries no meaning, the order in which Go's
  \<^verbatim>\<open>range\<close> visits the entries is a separate parameter of \<open>GenerateRule\<close>.
\<close>

datatype parser_Value =
    parser_String string
  | parser_Array "parser_Value list"
  | parser_Object "(string \<times> parser_Value) list"

subsection \<open>Rule bodies (package ast of the policy engine)\<close>

text \<open>
  Modelled from the spec: the engine's statement IR. \<^verbatim>\<open>ast.VarTerm(s)\<close> is
  \<open>ast_Var s\<close> with the name exactly as the source gives it (also when the name is
  the text \<^verbatim>\<open>allowed_fingerprints[_]\<close>), \<^verbatim>\<open>ast.String\<close> is \<open>ast_String\<close>, an
  \<^verbatim>\<open>ast.Array\<close> is \<open>ast_Array\<close>. \<open>ast_Ref\<close> and \<open>ast_Call\<close> are the references and
  calls that \<^verbatim>\<open>ast.MustParseBody\<close> reads from the Rego text in the source.
  \<^verbatim>\<open>ast.Assign.Expr\<close> is \<open>Assign\<close> (\<^verbatim>\<open>:=\<close>), \<^verbatim>\<open>ast.Equal.Expr\<close> is \<open>Equal\<close>
  (\<^verbatim>\<open>=\<close>), the parsed \<^verbatim>\<open>==\<close> is \<open>Equality\<close> and the parsed \<^verbatim>\<open>some x\<close> is
  \<open>SomeDecl\<close>.
\<close>

datatype ast_Term =
    ast_Var string
  | ast_String string
  | ast_Number nat
  | ast_Array "ast_Term list"
  | ast_Ref ast_Term "ast_Term list"
  | ast_Call string "ast_Term list"

datatype ast_Expr =
    Assign ast_Term ast_Term
  | Equal ast_Term ast_Term
  | Equality ast_Term ast_Term
  | SomeDecl "string list"

type_synonym ast_Body = "ast_Expr list"

type_synonym error = string

subsection \<open>The Go library functions the file calls\<close>

text \<open>
  The source calls \<^verbatim>\<open>base64.StdEncoding.DecodeString\<close>, \<^verbatim>\<open>mail.ParseAddress\<close>,
  \<^verbatim>\<open>net.ParseIP\<close> and \<^verbatim>\<open>url.Parse\<close> of Go's standard library, and formats a
  configuration value with the verb \<^verbatim>\<open>%v\<close>. Their code is not part of the repository,
  so they are parameters: \<open>base64_DecodeString\<close> gives the decoded bytes or \<open>None\<close> for
  an error, the three parsers say whether parsing succeeds (the source uses nothing else
  of their results), \<open>fmt_v\<close> is the text \<^verbatim>\<open>%v\<close> prints.
\<close>

record go_lib =
  base64_DecodeString :: "string \<Rightarrow> string option"
  mail_ParseAddress :: "string \<Rightarrow> bool"
  net_ParseIP :: "string \<Rightarrow> bool"
  url_Parse :: "string \<Rightarrow> bool"
  fmt_v :: "parser_Value \<Rightarrow> string"

text \<open>The verb \<^verbatim>\<open>%T\<close> prints the dynamic type of the value.\<close>

fun fmt_T :: "parser_Value \<Rightarrow> string" where
  "fmt_T (parser_String _) = ''parser.String''"
| "fmt_T (parser_Array _) = ''parser.Array''"
| "fmt_T (parser_Object _) = ''parser.Object''"

subsection \<open>The fact extraction prologue\<close>

text \<open>
  \<^verbatim>\<open>clientCertificateBaseBody\<close>, the seven statements that
  \<^verbatim>\<open>ast.MustParseBody\<close> reads from the Rego text of lines 19 to 28.
\<close>

definition clientCertificateBaseBody :: ast_Body where
  "clientCertificateBaseBody =
    [Assign (ast_Var ''cert'')
       (ast_Ref
         (ast_Call ''crypto.x509.parse_certificates''
           [ast_Call ''trim_space''
             [ast_Ref (ast_Var ''input'')
               [ast_String ''http'', ast_String ''client_certificate'', ast_String ''leaf'']]])
         [ast_Number 0]),
     Assign (ast_Var ''fingerprint'')
       (ast_Call ''crypto.sha256''
         [ast_Call ''base64.decode'' [ast_Ref (ast_Var ''cert'') [ast_String ''Raw'']]]),
     Assign (ast_Var ''spki_hash'')
       (ast_Call ''base64.encode''
         [ast_Call ''hex.decode''
           [ast_Call ''crypto.sha256''
             [ast_Call ''base64.decode''
               [ast_Ref (ast_Var ''cert'') [ast_String ''RawSubjectPublicKeyInfo'']]]]]),
     Assign (ast_Var ''san_email_addresses'')
       (ast_Ref (ast_Var ''cert'') [ast_String ''EmailAddresses'']),
     Assign (ast_Var ''san_dns_names'') (ast_Ref (ast_Var ''cert'') [ast_String ''DNSNames'']),
     Assign (ast_Var ''san_ip_addresses'')
       (ast_Ref (ast_Var ''cert'') [ast_String ''IPAddresses'']),
     Assign (ast_Var ''san_uris'') (ast_Ref (ast_Var ''cert'') [ast_String ''URIs''])]"

subsection \<open>Fingerprints\<close>

definition is_lower_hex :: "char \<Rightarrow> bool" where
  "is_lower_hex c = (c \<in> set ''0123456789abcdef'')"

definition is_upper_hex :: "char \<Rightarrow> bool" where
  "is_upper_hex c = (c \<in> set ''0123456789ABCDEF'')"

text \<open>
  \<^verbatim>\<open>shortCertFingerprintRE = ^[0-9a-f]{64}$\<close>. Go's \<^verbatim>\<open>$\<close> matches at the end of the
  text only, so \<^verbatim>\<open>MatchString\<close> holds of exactly the strings of 64 characters of the
  class.
\<close>

definition shortCertFingerprintRE :: "string \<Rightarrow> bool" where
  "shortCertFingerprintRE f = (length f = 64 \<and> list_all is_lower_hex f)"

text \<open>
  \<^verbatim>\<open>longCertFingerprintRE = ^[0-9A-F]{2}(:[0-9A-F]{2}){31}$\<close>: \<open>colon_groups n\<close> matches
  \<^verbatim>\<open>(:[0-9A-F]{2}){n}$\<close>.
\<close>

fun colon_groups :: "nat \<Rightarrow> string \<Rightarrow> bool" where
  "colon_groups 0 s = (s = [])"
| "colon_groups (Suc n) (c # a # b # s) =
     (c = CHR '':'' \<and> is_upper_hex a \<and> is_upper_hex b \<and> colon_groups n s)"
| "colon_groups (Suc n) _ = False"

definition longCertFingerprintRE :: "string \<Rightarrow> bool" where
  "longCertFingerprintRE f =
     (case f of a # b # s \<Rightarrow> is_upper_hex a \<and> is_upper_hex b \<and> colon_groups 31 s | _ \<Rightarrow> False)"

text \<open>\<^verbatim>\<open>strings.ReplaceAll(f, ":", "")\<close> deletes every colon.\<close>

definition ReplaceAll_colon :: "string \<Rightarrow> string" where
  "ReplaceAll_colon f = filter (\<lambda>c. c \<noteq> CHR '':'') f"

text \<open>
  \<^verbatim>\<open>strings.ToLower\<close> on ASCII text, which is all the source applies it to (its
  argument has matched \<^verbatim>\<open>longCertFingerprintRE\<close>): the letters A to Z move by 32.
\<close>

definition to_lower :: "char \<Rightarrow> char" where
  "to_lower c =
     (if c \<in> set ''ABCDEFGHIJKLMNOPQRSTUVWXYZ'' then char_of (of_char c + (32::nat)) else c)"

definition ToLower :: "string \<Rightarrow> string" where
  "ToLower s = map to_lower s"

definition canonicalCertFingerprint :: "go_lib \<Rightarrow> parser_Value \<Rightarrow> error + ast_Term" where
  "canonicalCertFingerprint L data =
     (case data of
        parser_String f \<Rightarrow>
          if f = [] then Inl ''certificate fingerprint must not be empty''
          else if shortCertFingerprintRE f then Inr (ast_String f)
          else if longCertFingerprintRE f then Inr (ast_String (ToLower (ReplaceAll_colon f)))
          else Inl (''unsupported certificate fingerprint format ('' @ f @ '')'')
      | _ \<Rightarrow> Inl (''certificate fingerprint must be a string (was '' @ fmt_v L data @ '')''))"

subsection \<open>The loop over the elements of a condition\<close>

text \<open>
  Every builder runs \<^verbatim>\<open>for _, v := range pa\<close> over the elements, returns at the first
  element whose check gives an error, and appends the term of every other element to
  \<^verbatim>\<open>ra\<close>. \<open>range_elements check ra pa\<close> is that loop, \<open>check\<close> its body.
\<close>

fun range_elements ::
  "(parser_Value \<Rightarrow> error + ast_Term) \<Rightarrow> ast_Term list \<Rightarrow> parser_Value list \<Rightarrow> error + ast_Term list"
where
  "range_elements check ra [] = Inr ra"
| "range_elements check ra (v # pa) =
     (case check v of Inl err \<Rightarrow> Inl err | Inr t \<Rightarrow> range_elements check (ra @ [t]) pa)"

text \<open>The bodies of the loops of the other five builders.\<close>

definition spkiHashElement :: "go_lib \<Rightarrow> parser_Value \<Rightarrow> error + ast_Term" where
  "spkiHashElement L v =
     (case v of
        parser_String h \<Rightarrow>
          if h = [] then Inl ''certificate SPKI hash must not be empty''
          else (case base64_DecodeString L h of
                  None \<Rightarrow>
                    Inl (''certificate SPKI hash must be a base64-encoded SHA-256 hash (was '' @ h @ '')'')
                | Some b \<Rightarrow>
                    if length b \<noteq> 32
                    then Inl (''certificate SPKI hash must be a base64-encoded SHA-256 hash (was '' @ h @ '')'')
                    else Inr (ast_String h))
      | _ \<Rightarrow> Inl (''certificate SPKI hash must be a string (was '' @ fmt_v L v @ '')''))"

definition sanEmailElement :: "go_lib \<Rightarrow> parser_Value \<Rightarrow> error + ast_Term" where
  "sanEmailElement L v =
     (case v of
        parser_String emailStr \<Rightarrow>
          if \<not> mail_ParseAddress L emailStr
          then Inl (''certificate SAN email must be a valid email address (was '' @ emailStr @ '')'')
          else Inr (ast_String emailStr)
      | _ \<Rightarrow> Inl (''certificate SAN email must be a string (was '' @ fmt_v L v @ '')''))"

text \<open>
  The DNS name pattern of line 224,
  \<^verbatim>\<open>^([a-zA-Z0-9_]{1}[a-zA-Z0-9_-]{0,62}){1}(\.[a-zA-Z0-9_]{1}[a-zA-Z0-9_-]{0,62})*[\._]?$\<close>.
  A label starts with a character of \<open>is_word\<close> and goes on with at most 62 characters
  of \<open>is_word_hyphen\<close>; a dot is not in either class, so the labels of a match are fixed
  by the dots. \<open>dns_after n s\<close> matches the rest \<open>s\<close> of the text after a label
  character, when the label may take \<open>n\<close> more characters.
\<close>

definition is_word :: "char \<Rightarrow> bool" where
  "is_word c =
     (c \<in> set ''abcdefghijklmnopqrstuvwxyzABCDEFGHIJKLMNOPQRSTUVWXYZ0123456789_'')"

definition is_word_hyphen :: "char \<Rightarrow> bool" where
  "is_word_hyphen c = (is_word c \<or> c = CHR ''-'')"

fun dns_after :: "nat \<Rightarrow> string \<Rightarrow> bool" where
  "dns_after n [] = True"
| "dns_after n (c # s) =
     (if c = CHR ''.'' then (case s of [] \<Rightarrow> True | d # s' \<Rightarrow> is_word d \<and> dns_after 62 s')
      else if is_word_hyphen c \<and> 0 < n then dns_after (n - 1) s
      else c = CHR ''_'' \<and> s = [])"

definition rxDNSName :: "string \<Rightarrow> bool" where
  "rxDNSName s = (case s of [] \<Rightarrow> False | c # s' \<Rightarrow> is_word c \<and> dns_after 62 s')"

definition sanDNSElement :: "go_lib \<Rightarrow> parser_Value \<Rightarrow> error + ast_Term" where
  "sanDNSElement L v =
     (case v of
        parser_String dnsStr \<Rightarrow>
          if \<not> rxDNSName dnsStr
          then Inl (''certificate SAN dns must be a valid DNS name (was '' @ dnsStr @ '')'')
          else Inr (ast_String dnsStr)
      | _ \<Rightarrow> Inl (''certificate SAN dns must be a string (was '' @ fmt_v L v @ '')''))"

definition sanIPElement :: "go_lib \<Rightarrow> parser_Value \<Rightarrow> error + ast_Term" where
  "sanIPElement L v =
     (case v of
        parser_String ipStr \<Rightarrow>
          if \<not> net_ParseIP L ipStr
          then Inl (''certificate SAN IP must be a valid IP address (was '' @ ipStr @ '')'')
          else Inr (ast_String ipStr)
      | _ \<Rightarrow> Inl (''certificate SAN IP must be a string (was '' @ fmt_v L v @ '')''))"

definition sanURIElement :: "go_lib \<Rightarrow> parser_Value \<Rightarrow> error + ast_Term" where
  "sanURIElement L v =
     (case v of
        parser_String urlStr \<Rightarrow>
          if \<not> url_Parse L urlStr
          then Inl (''certificate SAN URI must be a valid URI (was '' @ urlStr @ '')'')
          else Inr (ast_String urlStr)
      | _ \<Rightarrow> Inl (''certificate URI must be a string (was '' @ fmt_v L v @ '')''))"

subsection \<open>The condition builders\<close>

text \<open>
  Each builder starts with the type switch on \<^verbatim>\<open>data\<close>: a sequence is taken as it
  is, a string becomes the one-element sequence \<^verbatim>\<open>parser.Array{data}\<close>, anything else
  is an error. Then comes the loop, then the statements appended to the body.
\<close>

definition addCertFingerprintCondition :: "go_lib \<Rightarrow> ast_Body \<Rightarrow> parser_Value \<Rightarrow> error + ast_Body" where
  "addCertFingerprintCondition L body data =
     (case (case data of
              parser_Array v \<Rightarrow> Inr v
            | parser_String _ \<Rightarrow> Inr [data]
            | _ \<Rightarrow> Inl ''certificate fingerprint condition expects a string or array of strings'') of
        Inl err \<Rightarrow> Inl err
      | Inr pa \<Rightarrow>
          (case range_elements (canonicalCertFingerprint L) [] pa of
             Inl err \<Rightarrow> Inl err
           | Inr ra \<Rightarrow>
               Inr (body @
                 [Assign (ast_Var ''allowed_fingerprints'') (ast_Array ra),
                  Equal (ast_Var ''fingerprint'') (ast_Var ''allowed_fingerprints[_]'')])))"

definition addCertSPKIHashCondition :: "go_lib \<Rightarrow> ast_Body \<Rightarrow> parser_Value \<Rightarrow> error + ast_Body" where
  "addCertSPKIHashCondition L body data =
     (case (case data of
              parser_Array v \<Rightarrow> Inr v
            | parser_String _ \<Rightarrow> Inr [data]
            | _ \<Rightarrow> Inl ''certificate SPKI hash condition expects a string or array of strings'') of
        Inl err \<Rightarrow> Inl err
      | Inr pa \<Rightarrow>
          (case range_elements (spkiHashElement L) [] pa of
             Inl err \<Rightarrow> Inl err
           | Inr ra \<Rightarrow>
               Inr (body @
                 [Assign (ast_Var ''allowed_spki_hashes'') (ast_Array ra),
                  Equal (ast_Var ''spki_hash'') (ast_Var ''allowed_spki_hashes[_]'')])))"

definition addSanEmailCondition :: "go_lib \<Rightarrow> ast_Body \<Rightarrow> parser_Value \<Rightarrow> error + ast_Body" where
  "addSanEmailCondition L body data =
     (case (case data of
              parser_Array v \<Rightarrow> Inr v
            | parser_String _ \<Rightarrow> Inr [data]
            | _ \<Rightarrow> Inl ''certificate SAN email condition expects a string or array of strings'') of
        Inl err \<Rightarrow> Inl err
      | Inr pa \<Rightarrow>
          (case range_elements (sanEmailElement L) [] pa of
             Inl err \<Rightarrow> Inl err
           | Inr ra \<Rightarrow>
               Inr (body @
                 [Assign (ast_Var ''allowed_san_emails'') (ast_Array ra),
                  Equal (ast_Var ''allowed_san_emails[_]'') (ast_Var ''san_email_addresses[_]'')])))"

definition addSanDNSCondition :: "go_lib \<Rightarrow> ast_Body \<Rightarrow> parser_Value \<Rightarrow> error + ast_Body" where
  "addSanDNSCondition L body data =
     (case (case data of
              parser_Array v \<Rightarrow> Inr v
            | parser_String _ \<Rightarrow> Inr [data]
            | _ \<Rightarrow> Inl ''certificate SAN dns condition expects a string or array of strings'') of
        Inl err \<Rightarrow> Inl err
      | Inr pa \<Rightarrow>
          (case range_elements (sanDNSElement L) [] pa of
             Inl err \<Rightarrow> Inl err
           | Inr ra \<Rightarrow>
               Inr (body @
                 [Assign (ast_Var ''allowed_san_dns_names'') (ast_Array ra),
                  Equal (ast_Var ''allowed_san_dns_names[_]'') (ast_Var ''san_dns_names[_]'')])))"

definition addSanIPCondition :: "go_lib \<Rightarrow> ast_Body \<Rightarrow> parser_Value \<Rightarrow> error + ast_Body" where
  "addSanIPCondition L body data =
     (case (case data of
              parser_Array v \<Rightarrow> Inr v
            | parser_String _ \<Rightarrow> Inr [data]
            | _ \<Rightarrow> Inl ''certificate SAN IP condition expects a string or array of strings'') of
        Inl err \<Rightarrow> Inl err
      | Inr pa \<Rightarrow>
          (case range_elements (sanIPElement L) [] pa of
             Inl err \<Rightarrow> Inl err
           | Inr ra \<Rightarrow>
               Inr (body @
                 [Assign (ast_Var ''allowed_san_ip_addresses'') (ast_Array ra),
                  Equal (ast_Var ''allowed_san_ip_addresses[_]'') (ast_Var ''san_ip_addresses[_]'')])))"

text \<open>
  \<^verbatim>\<open>uriCheckBody\<close>, the two statements that \<^verbatim>\<open>ast.MustParseBody\<close> reads from the
  Rego text of line 302: the declaration \<^verbatim>\<open>some san_uri_index\<close> and the comparison of
  the \<^verbatim>\<open>sprintf\<close> call with \<^verbatim>\<open>allowed_san_uris[_]\<close>.
\<close>

definition uriCheckBody :: ast_Body where
  "uriCheckBody =
    [SomeDecl [''san_uri_index''],
     Equality
       (ast_Call ''sprintf''
         [ast_String ''%s://%s%s'',
          ast_Array
            [ast_Ref (ast_Var ''san_uris'') [ast_Var ''san_uri_index'', ast_String ''Scheme''],
             ast_Ref (ast_Var ''san_uris'') [ast_Var ''san_uri_index'', ast_String ''Host''],
             ast_Ref (ast_Var ''san_uris'') [ast_Var ''san_uri_index'', ast_String ''Path'']]])
       (ast_Ref (ast_Var ''allowed_san_uris'') [ast_Var ''_''])]"

definition addSanURICondition :: "go_lib \<Rightarrow> ast_Body \<Rightarrow> parser_Value \<Rightarrow> error + ast_Body" where
  "addSanURICondition L body data =
     (case (case data of
              parser_Array v \<Rightarrow> Inr v
            | parser_String _ \<Rightarrow> Inr [data]
            | _ \<Rightarrow> Inl ''certificate SAN URI condition expects a string or array of strings'') of
        Inl err \<Rightarrow> Inl err
      | Inr pa \<Rightarrow>
          (case range_elements (sanURIElement L) [] pa of
             Inl err \<Rightarrow> Inl err
           | Inr ra \<Rightarrow>
               Inr ((body @ [Assign (ast_Var ''allowed_san_uris'') (ast_Array ra)]) @ uriCheckBody)))"

subsection \<open>GenerateRule\<close>

text \<open>
  Modelled from the spec: \<^verbatim>\<open>NewCriterionRule\<close> and the two reason constants are declared
  outside the file. The spec has the rule hold the finished body together with the
  criterion's name and its fixed success and failure reasons.
\<close>

datatype Reason = ReasonClientCertificateOK | ReasonClientCertificateUnauthorized

record ast_Rule =
  rule_name :: string
  rule_pass :: Reason
  rule_fail :: Reason
  rule_body :: ast_Body

definition NewCriterionRule :: "string \<Rightarrow> Reason \<Rightarrow> Reason \<Rightarrow> ast_Body \<Rightarrow> ast_Rule" where
  "NewCriterionRule name passReason failReason body =
     \<lparr>rule_name = name, rule_pass = passReason, rule_fail = failReason, rule_body = body\<rparr>"

definition Name :: string where
  "Name = ''client_certificate''"

text \<open>The \<^verbatim>\<open>switch k\<close> of lines 55 to 70.\<close>

definition switch_k :: "go_lib \<Rightarrow> ast_Body \<Rightarrow> string \<Rightarrow> parser_Value \<Rightarrow> error + ast_Body" where
  "switch_k L body k v =
     (if k = ''fingerprint'' then addCertFingerprintCondition L body v
      else if k = ''spki_hash'' then addCertSPKIHashCondition L body v
      else if k = ''email'' then addSanEmailCondition L body v
      else if k = ''dns'' then addSanDNSCondition L body v
      else if k = ''ip'' then addSanIPCondition L body v
      else if k = ''uri'' then addSanURICondition L body v
      else Inl (''unsupported certificate matcher condition: '' @ k))"

text \<open>
  The loop \<^verbatim>\<open>for k, v := range obj\<close> over the entries in the order they are visited:
  it returns at the first entry whose builder gives an error.
\<close>

fun range_obj :: "go_lib \<Rightarrow> ast_Body \<Rightarrow> (string \<times> parser_Value) list \<Rightarrow> error + ast_Body" where
  "range_obj L body [] = Inr body"
| "range_obj L body ((k, v) # kvs) =
     (case switch_k L body k v of Inl err \<Rightarrow> Inl err | Inr body' \<Rightarrow> range_obj L body' kvs)"

text \<open>
  Go leaves the order in which \<^verbatim>\<open>range\<close> visits the entries of a map open, and it may
  differ from one loop to the next. \<open>visit\<close> is the order of one call: it gives the
  entries of the object as the loop of that call meets them. \<open>map_range visit\<close> says
  that \<open>visit\<close> is such an order: every entry is met once.
\<close>

definition map_range :: "((string \<times> parser_Value) list \<Rightarrow> (string \<times> parser_Value) list) \<Rightarrow> bool" where
  "map_range visit = (\<forall>obj. mset (visit obj) = mset obj)"

definition GenerateRule ::
  "go_lib \<Rightarrow> ((string \<times> parser_Value) list \<Rightarrow> (string \<times> parser_Value) list) \<Rightarrow> parser_Value
    \<Rightarrow> error + (ast_Rule \<times> ast_Rule list)"
where
  "GenerateRule L visit data =
     (case data of
        parser_Object obj \<Rightarrow>
          (case range_obj L clientCertificateBaseBody (visit obj) of
             Inl err \<Rightarrow> Inl err
           | Inr body \<Rightarrow>
               Inr (NewCriterionRule Name ReasonClientCertificateOK
                      ReasonClientCertificateUnauthorized body, []))
      | _ \<Rightarrow> Inl (''expected object for certificate matcher, got: '' @ fmt_T data))"

section \<open>The grammars in the words of the specification\<close>

text \<open>
  The specification describes the long form of a fingerprint as 32 groups of two
  uppercase hexadecimal digits, separated by colons. \<open>split_colon\<close> cuts a text at its
  colons, \<open>colon_join\<close> puts the pieces together again, and \<open>long_form\<close> is the
  description. It is compared with \<open>longCertFingerprintRE\<close> below.
\<close>

fun split_colon :: "string \<Rightarrow> string list" where
  "split_colon [] = [[]]"
| "split_colon (c # s) =
     (if c = CHR '':'' then [] # split_colon s
      else (case split_colon s of [] \<Rightarrow> [[c]] | g # gs \<Rightarrow> (c # g) # gs))"

fun colon_join :: "string list \<Rightarrow> string" where
  "colon_join [] = []"
| "colon_join [g] = g"
| "colon_join (g # h # gs) = g @ CHR '':'' # colon_join (h # gs)"

definition hex_group :: "string \<Rightarrow> bool" where
  "hex_group g = (length g = 2 \<and> list_all is_upper_hex g)"

definition long_form :: "string \<Rightarrow> bool" where
  "long_form f = (length (split_colon f) = 32 \<and> list_all hex_group (split_colon f))"

section \<open>Notions used to state the properties\<close>

text \<open>
  The six keys of the \<^verbatim>\<open>switch\<close>, and for each key the body of its builder's loop,
  the message of its type switch and the statements it appends for the allow-list \<open>ra\<close>.
  The lemma \<open>switch_k_known\<close> below shows that the builders are made of these parts.
\<close>

definition condition_keys :: "string list" where
  "condition_keys = [''fingerprint'', ''spki_hash'', ''email'', ''dns'', ''ip'', ''uri'']"

definition element_check :: "go_lib \<Rightarrow> string \<Rightarrow> parser_Value \<Rightarrow> error + ast_Term" where
  "element_check L k =
     (if k = ''fingerprint'' then canonicalCertFingerprint L
      else if k = ''spki_hash'' then spkiHashElement L
      else if k = ''email'' then sanEmailElement L
      else if k = ''dns'' then sanDNSElement L
      else if k = ''ip'' then sanIPElement L
      else sanURIElement L)"

definition shape_error :: "string \<Rightarrow> error" where
  "shape_error k =
     (if k = ''fingerprint'' then ''certificate fingerprint condition expects a string or array of strings''
      else if k = ''spki_hash'' then ''certificate SPKI hash condition expects a string or array of strings''
      else if k = ''email'' then ''certificate SAN email condition expects a string or array of strings''
      else if k = ''dns'' then ''certificate SAN dns condition expects a string or array of strings''
      else if k = ''ip'' then ''certificate SAN IP condition expects a string or array of strings''
      else ''certificate SAN URI condition expects a string or array of strings'')"

definition fragment :: "string \<Rightarrow> ast_Term list \<Rightarrow> ast_Body" where
  "fragment k ra =
     (if k = ''fingerprint'' then
        [Assign (ast_Var ''allowed_fingerprints'') (ast_Array ra),
         Equal (ast_Var ''fingerprint'') (ast_Var ''allowed_fingerprints[_]'')]
      else if k = ''spki_hash'' then
        [Assign (ast_Var ''allowed_spki_hashes'') (ast_Array ra),
         Equal (ast_Var ''spki_hash'') (ast_Var ''allowed_spki_hashes[_]'')]
      else if k = ''email'' then
        [Assign (ast_Var ''allowed_san_emails'') (ast_Array ra),
         Equal (ast_Var ''allowed_san_emails[_]'') (ast_Var ''san_email_addresses[_]'')]
      else if k = ''dns'' then
        [Assign (ast_Var ''allowed_san_dns_names'') (ast_Array ra),
         Equal (ast_Var ''allowed_san_dns_names[_]'') (ast_Var ''san_dns_names[_]'')]
      else if k = ''ip'' then
        [Assign (ast_Var ''allowed_san_ip_addresses'') (ast_Array ra),
         Equal (ast_Var ''allowed_san_ip_addresses[_]'') (ast_Var ''san_ip_addresses[_]'')]
      else Assign (ast_Var ''allowed_san_uris'') (ast_Array ra) # uriCheckBody)"

text \<open>The sequence a condition's value stands for, when it is a string or a sequence.\<close>

fun elements :: "parser_Value \<Rightarrow> parser_Value list option" where
  "elements (parser_Array v) = Some v"
| "elements (parser_String s) = Some [parser_String s]"
| "elements (parser_Object obj) = None"

text \<open>
  The statements an entry of the object contributes: what its builder appends to the
  empty body, and nothing when the builder gives an error.
\<close>

definition entry_fragment :: "go_lib \<Rightarrow> string \<times> parser_Value \<Rightarrow> ast_Body" where
  "entry_fragment L kv = (case switch_k L [] (fst kv) (snd kv) of Inl err \<Rightarrow> [] | Inr body \<Rightarrow> body)"

definition entry_ok :: "go_lib \<Rightarrow> string \<times> parser_Value \<Rightarrow> bool" where
  "entry_ok L kv = (\<not> isl (switch_k L [] (fst kv) (snd kv)))"



text \<open>Whether a text decodes to the 32 bytes of a SHA-256 digest.\<close>

definition decodes_to_32 :: "go_lib \<Rightarrow> string \<Rightarrow> bool" where
  "decodes_to_32 L h = (case base64_DecodeString L h of None \<Rightarrow> False | Some b \<Rightarrow> length b = 32)"

text \<open>
  A library for the concrete inputs of the examples below. On the texts it knows it
  answers as Go's library does: the base64 text of 32 zero bytes and that of 3 zero
  bytes decode, one mail address, two IP addresses and two URI references (one of them the
  empty text) parse, and nothing else is used.
\<close>

definition example_lib :: go_lib where
  "example_lib =
     \<lparr>base64_DecodeString =
        (\<lambda>s. if s = ''AAAAAAAAAAAAAAAAAAAAAAAAAAAAAAAAAAAAAAAAAAA='' then Some (replicate 32 (CHR 0x00))
             else if s = ''AAAA'' then Some (replicate 3 (CHR 0x00))
             else None),
      mail_ParseAddress = (\<lambda>s. s = ''a@example.com''),
      net_ParseIP = (\<lambda>s. s = ''192.168.1.1'' \<or> s = ''::1''),
      url_Parse = (\<lambda>s. s = [] \<or> s = ''spiffe://cluster/ns/default/sa/foo''),
      fmt_v = (\<lambda>v. ''{}'')\<rparr>"

text \<open>
  The names a statement refers to. A variable term stands for its Rego text, so the name
  of \<^verbatim>\<open>ast.VarTerm("allowed_fingerprints[_]")\<close> is the text before the bracket; the
  wildcard \<^verbatim>\<open>_\<close> is no name. The name of a called function is not a variable.
\<close>

definition var_name :: "string \<Rightarrow> string" where
  "var_name x = takeWhile (\<lambda>c. c \<noteq> CHR ''['') x"

fun term_names :: "ast_Term \<Rightarrow> string list" where
  "term_names (ast_Var x) = (if x = ''_'' then [] else [var_name x])"
| "term_names (ast_String s) = []"
| "term_names (ast_Number n) = []"
| "term_names (ast_Array ts) = concat (map term_names ts)"
| "term_names (ast_Ref h ps) = term_names h @ concat (map term_names ps)"
| "term_names (ast_Call f ts) = concat (map term_names ts)"

text \<open>The names a constraint (\<^verbatim>\<open>=\<close> or \<^verbatim>\<open>==\<close>) refers to.\<close>

fun constraint_names :: "ast_Expr \<Rightarrow> string list" where
  "constraint_names (Equal a b) = term_names a @ term_names b"
| "constraint_names (Equality a b) = term_names a @ term_names b"
| "constraint_names (Assign a b) = []"
| "constraint_names (SomeDecl xs) = []"

text \<open>
  The names a statement binds for the statements after it: \<open>assigned\<close> counts the
  assignments only, \<open>declared\<close> also the declarations \<^verbatim>\<open>some x\<close>.
\<close>

fun assigned :: "ast_Expr \<Rightarrow> string list" where
  "assigned (Assign (ast_Var x) t) = [x]"
| "assigned e = []"

fun declared :: "ast_Expr \<Rightarrow> string list" where
  "declared (SomeDecl xs) = xs"
| "declared e = assigned e"

text \<open>The fact names of the prologue that the constraints read.\<close>

definition fact_names :: "string list" where
  "fact_names =
     [''fingerprint'', ''spki_hash'', ''san_email_addresses'', ''san_dns_names'',
      ''san_ip_addresses'', ''san_uris'']"

text \<open>
  \<open>unbound_names binds B body\<close> lists, statement by statement, the names that a
  constraint of the body refers to and that are neither in \<open>B\<close> nor bound by a statement
  before the constraint.
\<close>

fun unbound_names :: "(ast_Expr \<Rightarrow> string list) \<Rightarrow> string list \<Rightarrow> ast_Body \<Rightarrow> string list" where
  "unbound_names binds B [] = []"
| "unbound_names binds B (e # es) =
     filter (\<lambda>x. x \<notin> set B) (constraint_names e) @ unbound_names binds (binds e @ B) es"

section \<open>The reading of a rule body by the policy engine\<close>

text \<open>
  Modelled from the spec: the engine that evaluates a rule body is an external
  collaborator. The spec fixes how it reads the statements the builders emit: a body is a
  conjunction of its statements in order; an assignment binds a name to a value; a
  constraint holds when its two sides have equal values; a wildcard index stands for some
  element of the sequence; \<^verbatim>\<open>some x\<close> declares a local name, which a reference then
  binds to some index; a SAN URI exposes the fields \<^verbatim>\<open>Scheme\<close>, \<^verbatim>\<open>Host\<close> and
  \<^verbatim>\<open>Path\<close> next to its query and fragment. The definitions below are this reading, made
  executable: an evaluation gives the list of all solutions, each a value with the
  bindings made on the way.
\<close>

datatype rego_value =
    RString string
  | RNumber nat
  | RArray "rego_value list"
  | RObject "(string \<times> rego_value) list"

type_synonym bindings = "(string \<times> rego_value) list"

text \<open>The elements of a sequence with their indices, and the fields of an object.\<close>

fun indexed :: "nat \<Rightarrow> 'a list \<Rightarrow> (rego_value \<times> 'a) list" where
  "indexed n [] = []"
| "indexed n (x # xs) = (RNumber n, x) # indexed (Suc n) xs"

fun children :: "rego_value \<Rightarrow> (rego_value \<times> rego_value) list" where
  "children (RArray xs) = indexed 0 xs"
| "children (RObject kvs) = map (\<lambda>(k, v). (RString k, v)) kvs"
| "children (RString s) = []"
| "children (RNumber n) = []"

text \<open>
  \<^verbatim>\<open>sprintf\<close> for the verb \<^verbatim>\<open>%s\<close> with string operands, which is all the source
  uses; any other use has no value here. Every other built-in function is the parameter
  \<open>B\<close> of the evaluation.
\<close>

fun sprintf :: "string \<Rightarrow> rego_value list \<Rightarrow> string option" where
  "sprintf [] args = (if args = [] then Some [] else None)"
| "sprintf [c] args = (if c \<noteq> CHR ''%'' \<and> args = [] then Some [c] else None)"
| "sprintf (c # d # fmt) args =
     (if c \<noteq> CHR ''%'' then map_option ((#) c) (sprintf (d # fmt) args)
      else if d = CHR ''s'' then
        (case args of RString a # args' \<Rightarrow> map_option ((@) a) (sprintf fmt args') | _ \<Rightarrow> None)
      else None)"

definition call_builtin ::
  "(string \<Rightarrow> rego_value list \<Rightarrow> rego_value option) \<Rightarrow> string \<Rightarrow> rego_value list \<Rightarrow> rego_value option"
where
  "call_builtin B f args =
     (if f = ''sprintf'' then
        (case args of [RString fmt, RArray xs] \<Rightarrow> map_option RString (sprintf fmt xs) | _ \<Rightarrow> None)
      else B f args)"

text \<open>The elements of \<open>v\<close> at the index or field \<open>k\<close>.\<close>

definition select :: "rego_value \<Rightarrow> rego_value \<Rightarrow> rego_value list" where
  "select v k = map snd (filter (\<lambda>kc. fst kc = k) (children v))"

text \<open>
  \<open>eval\<close> gives the values of a term, \<open>evals\<close> those of a list of terms from left to
  right, and \<open>walk\<close> follows the path of a reference into a value. A variable term
  whose name ends in \<^verbatim>\<open>[_]\<close> is read as its Rego text: some element of the value bound
  to the name before the bracket. A name that is not bound has no value, except as an index,
  where it is bound to each index in turn.
\<close>

fun eval ::
    "(string \<Rightarrow> rego_value list \<Rightarrow> rego_value option) \<Rightarrow> bindings \<Rightarrow> ast_Term
      \<Rightarrow> (rego_value \<times> bindings) list"
  and evals ::
    "(string \<Rightarrow> rego_value list \<Rightarrow> rego_value option) \<Rightarrow> bindings \<Rightarrow> ast_Term list
      \<Rightarrow> (rego_value list \<times> bindings) list"
  and walk ::
    "(string \<Rightarrow> rego_value list \<Rightarrow> rego_value option) \<Rightarrow> bindings \<Rightarrow> rego_value \<Rightarrow> ast_Term list
      \<Rightarrow> (rego_value \<times> bindings) list"
where
  "eval B s (ast_String x) = [(RString x, s)]"
| "eval B s (ast_Number n) = [(RNumber n, s)]"
| "eval B s (ast_Var x) =
     (if suffix ''[_]'' x then
        (case map_of s (take (length x - 3) x) of
           None \<Rightarrow> []
         | Some v \<Rightarrow> map (\<lambda>kc. (snd kc, s)) (children v))
      else (case map_of s x of None \<Rightarrow> [] | Some v \<Rightarrow> [(v, s)]))"
| "eval B s (ast_Array ts) = map (\<lambda>(vs, s'). (RArray vs, s')) (evals B s ts)"
| "eval B s (ast_Ref h ps) = concat (map (\<lambda>(v, s'). walk B s' v ps) (eval B s h))"
| "eval B s (ast_Call f ts) =
     concat (map (\<lambda>(vs, s'). case call_builtin B f vs of None \<Rightarrow> [] | Some v \<Rightarrow> [(v, s')])
       (evals B s ts))"
| "evals B s [] = [([], s)]"
| "evals B s (t # ts) =
     concat (map (\<lambda>(v, s'). map (\<lambda>(vs, s''). (v # vs, s'')) (evals B s' ts)) (eval B s t))"
| "walk B s v [] = [(v, s)]"
| "walk B s v (p # ps) =
     (case p of
        ast_Var x \<Rightarrow>
          if x = ''_'' then concat (map (\<lambda>(k, c). walk B s c ps) (children v))
          else (case map_of s x of
                  None \<Rightarrow> concat (map (\<lambda>(k, c). walk B ((x, k) # s) c ps) (children v))
                | Some k \<Rightarrow> concat (map (\<lambda>c. walk B s c ps) (select v k)))
      | _ \<Rightarrow>
          concat (map (\<lambda>(k, s'). concat (map (\<lambda>c. walk B s' c ps) (select v k))) (eval B s p)))"

text \<open>
  The solutions of a statement and of a body. A body is satisfied under the bindings
  \<open>s\<close> when it has a solution.
\<close>

fun exec ::
  "(string \<Rightarrow> rego_value list \<Rightarrow> rego_value option) \<Rightarrow> bindings \<Rightarrow> ast_Expr \<Rightarrow> bindings list"
where
  "exec B s (Assign (ast_Var x) t) = map (\<lambda>(v, s'). (x, v) # s') (eval B s t)"
| "exec B s (Assign a t) = []"
| "exec B s (Equal a b) =
     concat (map (\<lambda>(va, s'). concat (map (\<lambda>(vb, s''). if va = vb then [s''] else []) (eval B s' b)))
       (eval B s a))"
| "exec B s (Equality a b) =
     concat (map (\<lambda>(va, s'). concat (map (\<lambda>(vb, s''). if va = vb then [s''] else []) (eval B s' b)))
       (eval B s a))"
| "exec B s (SomeDecl xs) = [filter (\<lambda>xv. fst xv \<notin> set xs) s]"

fun run ::
  "(string \<Rightarrow> rego_value list \<Rightarrow> rego_value option) \<Rightarrow> bindings \<Rightarrow> ast_Body \<Rightarrow> bindings list"
where
  "run B s [] = [s]"
| "run B s (e # es) = concat (map (\<lambda>s'. run B s' es) (exec B s e))"

definition satisfied ::
  "(string \<Rightarrow> rego_value list \<Rightarrow> rego_value option) \<Rightarrow> bindings \<Rightarrow> ast_Body \<Rightarrow> bool"
where
  "satisfied B s body = (run B s body \<noteq> [])"

text \<open>
  A SAN URI of the certificate as the engine exposes it, and the text
  \<^verbatim>\<open>sprintf("%s://%s%s", [Scheme, Host, Path])\<close> makes of it.
\<close>

record cert_uri =
  Scheme :: string
  Host :: string
  Path :: string
  RawQuery :: string
  Fragment :: string

definition uri_value :: "cert_uri \<Rightarrow> rego_value" where
  "uri_value u =
     RObject
       [(''Scheme'', RString (Scheme u)), (''Host'', RString (Host u)),
        (''Path'', RString (Path u)), (''RawQuery'', RString (RawQuery u)),
        (''Fragment'', RString (Fragment u))]"

definition reconstructed :: "cert_uri \<Rightarrow> string" where
  "reconstructed u = Scheme u @ ''://'' @ Host u @ Path u"

section \<open>Fingerprint canonicalisation\<close>

lemma to_lower_letters:
  "to_lower CHR ''A'' = CHR ''a''" "to_lower CHR ''B'' = CHR ''b''"
  "to_lower CHR ''C'' = CHR ''c''" "to_lower CHR ''D'' = CHR ''d''"
  "to_lower CHR ''E'' = CHR ''e''" "to_lower CHR ''F'' = CHR ''f''"
  by code_simp+

lemma to_lower_upper_hex: "is_upper_hex c \<Longrightarrow> is_lower_hex (to_lower c)"
  unfolding is_upper_hex_def
  by (auto simp: to_lower_letters is_lower_hex_def) (simp_all add: to_lower_def)

lemma upper_hex_not_colon: "is_upper_hex c \<Longrightarrow> c \<noteq> CHR '':''"
  by (auto simp: is_upper_hex_def)

lemma colon_groups_canonical:
  "colon_groups n s \<Longrightarrow>
     length (ReplaceAll_colon s) = 2 * n \<and> list_all is_lower_hex (ToLower (ReplaceAll_colon s))"
proof (induction n s rule: colon_groups.induct)
  case (2 n c a b s)
  then show ?case
    by (simp add: ReplaceAll_colon_def ToLower_def upper_hex_not_colon to_lower_upper_hex)
qed (simp_all add: ReplaceAll_colon_def ToLower_def)

lemma long_to_short:
  assumes "longCertFingerprintRE f"
  shows "shortCertFingerprintRE (ToLower (ReplaceAll_colon f))"
proof -
  from assms obtain a b s where f: "f = a # b # s"
    and ab: "is_upper_hex a" "is_upper_hex b" and g: "colon_groups 31 s"
    by (auto simp: longCertFingerprintRE_def split: list.splits)
  from colon_groups_canonical [OF g] ab show ?thesis
    by (simp add: f shortCertFingerprintRE_def ReplaceAll_colon_def ToLower_def
        upper_hex_not_colon to_lower_upper_hex)
qed

lemma short_nonempty: "shortCertFingerprintRE f \<Longrightarrow> f \<noteq> []"
  by (auto simp: shortCertFingerprintRE_def)

lemma long_nonempty: "longCertFingerprintRE f \<Longrightarrow> f \<noteq> []"
  by (auto simp: longCertFingerprintRE_def)

lemma canonical_short:
  "shortCertFingerprintRE f \<Longrightarrow> canonicalCertFingerprint L (parser_String f) = Inr (ast_String f)"
  by (simp add: canonicalCertFingerprint_def short_nonempty)

lemma canonical_long:
  "longCertFingerprintRE f \<Longrightarrow> \<not> shortCertFingerprintRE f \<Longrightarrow>
     canonicalCertFingerprint L (parser_String f) = Inr (ast_String (ToLower (ReplaceAll_colon f)))"
  by (simp add: canonicalCertFingerprint_def long_nonempty)

lemma colon_groups_length: "colon_groups n s \<Longrightarrow> length s = 3 * n"
  by (induction n s rule: colon_groups.induct) simp_all

lemma long_length: "longCertFingerprintRE f \<Longrightarrow> length f = 95"
  by (auto simp: longCertFingerprintRE_def split: list.splits dest: colon_groups_length)

lemma long_not_short: "longCertFingerprintRE f \<Longrightarrow> \<not> shortCertFingerprintRE f"
  by (auto simp: shortCertFingerprintRE_def dest: long_length)

text \<open>The pattern of the long form against the words of the specification.\<close>

lemma split_colon_nonempty: "split_colon s \<noteq> []"
  by (induction s) (auto split: list.splits)

lemma split_colon_other:
  "c \<noteq> CHR '':'' \<Longrightarrow> split_colon (c # s) = (c # hd (split_colon s)) # tl (split_colon s)"
  using split_colon_nonempty [of s] by (cases "split_colon s") simp_all

lemma colon_join_Cons: "colon_join ((c # g) # gs) = c # colon_join (g # gs)"
  by (cases gs) simp_all

lemma colon_join_Nil: "gs \<noteq> [] \<Longrightarrow> colon_join ([] # gs) = CHR '':'' # colon_join gs"
  by (cases gs) simp_all

lemma colon_join_split: "colon_join (split_colon f) = f"
proof (induction f)
  case Nil
  show ?case by simp
next
  case (Cons c f)
  show ?case
  proof (cases "c = CHR '':''")
    case True
    with Cons show ?thesis by (simp add: colon_join_Nil split_colon_nonempty)
  next
    case False
    obtain g gs where g: "split_colon f = g # gs"
      using split_colon_nonempty [of f] by (cases "split_colon f") auto
    with Cons False show ?thesis by (simp add: colon_join_Cons)
  qed
qed

lemma colon_groups_split:
  "colon_groups n s \<Longrightarrow>
     \<exists>gs. split_colon s = [] # gs \<and> length gs = n \<and> list_all hex_group gs"
proof (induction n s rule: colon_groups.induct)
  case (2 n c a b s)
  then obtain gs where gs: "split_colon s = [] # gs" "length gs = n" "list_all hex_group gs"
    by auto
  from 2 have ab: "a \<noteq> CHR '':''" "b \<noteq> CHR '':''" "is_upper_hex a" "is_upper_hex b" "c = CHR '':''"
    by (auto dest: upper_hex_not_colon)
  have "split_colon (a # b # s) = [a, b] # gs"
    using ab gs by (simp add: split_colon_other)
  moreover have "hex_group [a, b]"
    using ab by (simp add: hex_group_def)
  ultimately show ?case using ab gs by simp
qed simp_all

lemma join_colon_groups:
  "list_all hex_group (g # gs) \<Longrightarrow>
     \<exists>a b s. colon_join (g # gs) = a # b # s \<and> is_upper_hex a \<and> is_upper_hex b
       \<and> colon_groups (length gs) s"
proof (induction gs arbitrary: g)
  case Nil
  then obtain a b where "g = [a, b]"
    by (cases g; cases "tl g") (auto simp: hex_group_def)
  with Nil show ?case by (simp add: hex_group_def)
next
  case (Cons h hs)
  from Cons.prems obtain a b where g: "g = [a, b]" and ab: "is_upper_hex a" "is_upper_hex b"
    by (cases g; cases "tl g") (auto simp: hex_group_def)
  from Cons.prems have "list_all hex_group (h # hs)" by simp
  from Cons.IH [OF this] obtain a' b' s where
    j: "colon_join (h # hs) = a' # b' # s" "is_upper_hex a'" "is_upper_hex b'"
      "colon_groups (length hs) s"
    by blast
  with g ab show ?case by simp
qed

lemma long_form_iff: "longCertFingerprintRE f = long_form f"
proof
  assume "longCertFingerprintRE f"
  then obtain a b s where f: "f = a # b # s"
    and ab: "is_upper_hex a" "is_upper_hex b" and g: "colon_groups 31 s"
    by (auto simp: longCertFingerprintRE_def split: list.splits)
  from colon_groups_split [OF g] obtain gs where
    gs: "split_colon s = [] # gs" "length gs = 31" "list_all hex_group gs"
    by blast
  have "split_colon f = [a, b] # gs"
    using ab gs by (simp add: f split_colon_other upper_hex_not_colon)
  moreover have "hex_group [a, b]"
    using ab by (simp add: hex_group_def)
  ultimately show "long_form f" using gs by (simp add: long_form_def)
next
  assume l: "long_form f"
  then obtain g gs where g: "split_colon f = g # gs" "length gs = 31" "list_all hex_group (g # gs)"
    by (cases "split_colon f") (auto simp: long_form_def)
  from join_colon_groups [OF g(3)] obtain a b s where
    "colon_join (g # gs) = a # b # s" "is_upper_hex a" "is_upper_hex b" "colon_groups (length gs) s"
    by blast
  moreover have "colon_join (g # gs) = f"
    using colon_join_split [of f] g by simp
  ultimately show "longCertFingerprintRE f"
    using g by (auto simp: longCertFingerprintRE_def)
qed

text \<open>
  C3. For every input string, \<open>canonicalCertFingerprint\<close> returns a text exactly when
  the input is in one of the two grammars (64 lowercase hexadecimal digits, or 32 groups of
  two uppercase hexadecimal digits separated by colons), and the text it returns is 64
  lowercase hexadecimal digits. A short form comes back unchanged, so canonicalising a
  result again changes nothing; a long form comes back without its colons and in lower
  case, which is also what that lowercase text without colons canonicalises to. The empty
  string and every other string give an error.
\<close>

theorem canonicalCertFingerprint_grammars:
  "((\<exists>out. canonicalCertFingerprint L (parser_String f) = Inr out)
      = (shortCertFingerprintRE f \<or> long_form f))
   \<and> (\<forall>out. canonicalCertFingerprint L (parser_String f) = Inr out \<longrightarrow>
         (\<exists>g. out = ast_String g \<and> length g = 64 \<and> list_all is_lower_hex g
            \<and> canonicalCertFingerprint L (parser_String g) = Inr out))
   \<and> (shortCertFingerprintRE f \<longrightarrow>
         canonicalCertFingerprint L (parser_String f) = Inr (ast_String f))
   \<and> (long_form f \<longrightarrow>
         canonicalCertFingerprint L (parser_String f) = Inr (ast_String (ToLower (ReplaceAll_colon f)))
         \<and> canonicalCertFingerprint L (parser_String (ToLower (ReplaceAll_colon f)))
             = canonicalCertFingerprint L (parser_String f))
   \<and> (\<not> shortCertFingerprintRE f \<and> \<not> long_form f \<longrightarrow>
         (\<exists>err. canonicalCertFingerprint L (parser_String f) = Inl err))
   \<and> canonicalCertFingerprint L (parser_String []) = Inl ''certificate fingerprint must not be empty''"
proof -
  have short: "shortCertFingerprintRE f \<Longrightarrow>
      canonicalCertFingerprint L (parser_String f) = Inr (ast_String f)"
    by (rule canonical_short)
  have long: "canonicalCertFingerprint L (parser_String f) = Inr (ast_String (ToLower (ReplaceAll_colon f)))
      \<and> canonicalCertFingerprint L (parser_String (ToLower (ReplaceAll_colon f)))
          = canonicalCertFingerprint L (parser_String f)"
    if "long_form f"
  proof -
    from that have l: "longCertFingerprintRE f" by (simp add: long_form_iff)
    then show ?thesis
      by (simp add: canonical_long long_not_short canonical_short long_to_short)
  qed
  have other: "\<exists>err. canonicalCertFingerprint L (parser_String f) = Inl err"
    if "\<not> shortCertFingerprintRE f" "\<not> long_form f"
    using that by (simp add: canonicalCertFingerprint_def long_form_iff)
  have out: "\<exists>g. out = ast_String g \<and> length g = 64 \<and> list_all is_lower_hex g
      \<and> canonicalCertFingerprint L (parser_String g) = Inr out"
    if "canonicalCertFingerprint L (parser_String f) = Inr out" for out
  proof (cases "shortCertFingerprintRE f")
    case True
    with that show ?thesis
      by (auto simp: canonical_short) (simp_all add: shortCertFingerprintRE_def)
  next
    case False
    with that have l: "longCertFingerprintRE f"
      by (auto simp: canonicalCertFingerprint_def split: if_splits)
    from long_to_short [OF l] l False that show ?thesis
      by (auto simp: canonical_long canonical_short) (simp_all add: shortCertFingerprintRE_def)
  qed
  have iff: "(\<exists>out. canonicalCertFingerprint L (parser_String f) = Inr out)
      = (shortCertFingerprintRE f \<or> long_form f)"
    using short long other by (metis Inl_Inr_False)
  have empty: "canonicalCertFingerprint L (parser_String []) = Inl ''certificate fingerprint must not be empty''"
    by (simp add: canonicalCertFingerprint_def)
  from iff out short long other empty show ?thesis by blast
qed

theorem canonicalCertFingerprint_grammars_witness:
  "shortCertFingerprintRE ''aaaaaaaaaaaaaaaaaaaaaaaaaaaaaaaaaaaaaaaaaaaaaaaaaaaaaaaaaaaaaaaa''
   \<and> canonicalCertFingerprint example_lib
        (parser_String ''aaaaaaaaaaaaaaaaaaaaaaaaaaaaaaaaaaaaaaaaaaaaaaaaaaaaaaaaaaaaaaaa'')
       = Inr (ast_String ''aaaaaaaaaaaaaaaaaaaaaaaaaaaaaaaaaaaaaaaaaaaaaaaaaaaaaaaaaaaaaaaa'')
   \<and> long_form ''00:11:22:33:44:55:66:77:88:99:AA:BB:CC:DD:EE:FF:00:11:22:33:44:55:66:77:88:99:AA:BB:CC:DD:EE:FF''
   \<and> canonicalCertFingerprint example_lib
        (parser_String ''00:11:22:33:44:55:66:77:88:99:AA:BB:CC:DD:EE:FF:00:11:22:33:44:55:66:77:88:99:AA:BB:CC:DD:EE:FF'')
       = Inr (ast_String ''00112233445566778899aabbccddeeff00112233445566778899aabbccddeeff'')
   \<and> canonicalCertFingerprint example_lib
        (parser_String ''00112233445566778899aabbccddeeff00112233445566778899aabbccddeeff'')
       = Inr (ast_String ''00112233445566778899aabbccddeeff00112233445566778899aabbccddeeff'')
   \<and> \<not> shortCertFingerprintRE ''aa:bb''
   \<and> \<not> long_form ''aa:bb''
   \<and> (\<exists>err. canonicalCertFingerprint example_lib (parser_String ''aa:bb'') = Inl err)"
proof -
  let ?s = "''aaaaaaaaaaaaaaaaaaaaaaaaaaaaaaaaaaaaaaaaaaaaaaaaaaaaaaaaaaaaaaaa''"
  let ?l = "''00:11:22:33:44:55:66:77:88:99:AA:BB:CC:DD:EE:FF:00:11:22:33:44:55:66:77:88:99:AA:BB:CC:DD:EE:FF''"
  let ?c = "''00112233445566778899aabbccddeeff00112233445566778899aabbccddeeff''"
  have s: "shortCertFingerprintRE ?s" by code_simp
  have l: "long_form ?l" by code_simp
  have c: "ToLower (ReplaceAll_colon ?l) = ?c" by code_simp
  have b: "\<not> shortCertFingerprintRE ''aa:bb''" "\<not> long_form ''aa:bb''" by code_simp+
  from canonicalCertFingerprint_grammars [of example_lib ?s] s
  have 1: "canonicalCertFingerprint example_lib (parser_String ?s) = Inr (ast_String ?s)"
    by blast
  from canonicalCertFingerprint_grammars [of example_lib ?l] l
  have 2: "canonicalCertFingerprint example_lib (parser_String ?l)
        = Inr (ast_String (ToLower (ReplaceAll_colon ?l)))
      \<and> canonicalCertFingerprint example_lib (parser_String (ToLower (ReplaceAll_colon ?l)))
        = canonicalCertFingerprint example_lib (parser_String ?l)"
    by blast
  from canonicalCertFingerprint_grammars [of example_lib "''aa:bb''"] b
  have 3: "\<exists>err. canonicalCertFingerprint example_lib (parser_String ''aa:bb'') = Inl err"
    by blast
  from 2 have 4: "canonicalCertFingerprint example_lib (parser_String ?l) = Inr (ast_String ?c)"
    and 5: "canonicalCertFingerprint example_lib (parser_String ?c) = Inr (ast_String ?c)"
    unfolding c by simp_all
  from s l b 1 3 4 5 show ?thesis by blast
qed

section \<open>The loops and the builders\<close>

lemma range_elements_ok:
  "list_all (\<lambda>v. \<not> isl (check v)) pa \<Longrightarrow>
     range_elements check ra pa = Inr (ra @ map (\<lambda>v. projr (check v)) pa)"
  by (induction pa arbitrary: ra) (auto split: sum.splits)


lemma range_elements_error:
  "\<not> list_all (\<lambda>v. \<not> isl (check v)) pa \<Longrightarrow> \<exists>err. range_elements check ra pa = Inl err"
  by (induction pa arbitrary: ra) (auto split: sum.splits)

lemma switch_k_known:
  "k \<in> set condition_keys \<Longrightarrow>
     switch_k L body k data =
       (case elements data of
          None \<Rightarrow> Inl (shape_error k)
        | Some pa \<Rightarrow>
            (case range_elements (element_check L k) [] pa of
               Inl err \<Rightarrow> Inl err
             | Inr ra \<Rightarrow> Inr (body @ fragment k ra)))"
  by (cases data)
    (auto simp: condition_keys_def switch_k_def element_check_def shape_error_def fragment_def
      addCertFingerprintCondition_def addCertSPKIHashCondition_def addSanEmailCondition_def
      addSanDNSCondition_def addSanIPCondition_def addSanURICondition_def
      split: sum.splits)

lemma switch_k_unknown:
  "k \<notin> set condition_keys \<Longrightarrow>
     switch_k L body k v = Inl (''unsupported certificate matcher condition: '' @ k)"
  by (simp add: condition_keys_def switch_k_def)

lemma switch_k_body:
  "switch_k L body k v =
     (case switch_k L [] k v of Inl err \<Rightarrow> Inl err | Inr f \<Rightarrow> Inr (body @ f))"
proof (cases "k \<in> set condition_keys")
  case True
  then show ?thesis
    by (simp add: switch_k_known split: option.splits sum.splits)
next
  case False
  then show ?thesis by (simp add: switch_k_unknown)
qed

lemma entry_ok_pair: "entry_ok L (k, v) = (\<not> isl (switch_k L [] k v))"
  by (simp add: entry_ok_def)

lemma entry_fragment_pair:
  "entry_fragment L (k, v) = (case switch_k L [] k v of Inl err \<Rightarrow> [] | Inr body \<Rightarrow> body)"
  by (simp add: entry_fragment_def)

lemma range_obj_ok:
  "list_all (entry_ok L) kvs \<Longrightarrow>
     range_obj L body kvs = Inr (body @ concat (map (entry_fragment L) kvs))"
proof (induction kvs arbitrary: body)
  case Nil
  show ?case by simp
next
  case (Cons kv kvs)
  obtain k v where kv: "kv = (k, v)" by (cases kv)
  from Cons.prems obtain f where f: "switch_k L [] k v = Inr f"
    by (cases "switch_k L [] k v") (auto simp: kv entry_ok_pair)
  then have "switch_k L body k v = Inr (body @ f)"
    by (subst switch_k_body) simp
  with Cons f show ?case by (simp add: kv entry_fragment_pair)
qed

lemma range_obj_first_error:
  "list_all (entry_ok L) pre \<Longrightarrow> switch_k L [] k v = Inl err \<Longrightarrow>
     range_obj L body (pre @ (k, v) # post) = Inl err"
proof (induction pre arbitrary: body)
  case Nil
  then have "switch_k L body k v = Inl err"
    by (subst switch_k_body) simp
  then show ?case by simp
next
  case (Cons kv pre)
  obtain k' v' where kv: "kv = (k', v')" by (cases kv)
  from Cons.prems obtain f where f: "switch_k L [] k' v' = Inr f"
    by (cases "switch_k L [] k' v'") (auto simp: kv entry_ok_pair)
  then have "switch_k L body k' v' = Inr (body @ f)"
    by (subst switch_k_body) simp
  with Cons show ?case by (simp add: kv)
qed

lemma range_obj_error:
  "\<not> list_all (entry_ok L) kvs \<Longrightarrow> \<exists>err. range_obj L body kvs = Inl err"
proof (induction kvs arbitrary: body)
  case Nil
  then show ?case by simp
next
  case (Cons kv kvs)
  obtain k v where kv: "kv = (k, v)" by (cases kv)
  show ?case
  proof (cases "switch_k L [] k v")
    case (Inl err)
    then have "switch_k L body k v = Inl err"
      by (subst switch_k_body) simp
    then show ?thesis by (simp add: kv)
  next
    case (Inr f)
    then have b: "switch_k L body k v = Inr (body @ f)"
      by (subst switch_k_body) simp
    from Inr Cons.prems have "\<not> list_all (entry_ok L) kvs"
      by (simp add: kv entry_ok_pair)
    from Cons.IH [OF this] b show ?thesis by (simp add: kv)
  qed
qed

lemma map_range_set: "map_range visit \<Longrightarrow> set (visit obj) = set obj"
  by (metis map_range_def mset_eq_setD)

lemma map_range_single: "map_range visit \<Longrightarrow> visit [kv] = [kv]"
  by (metis map_range_def mset.simps(1) mset.simps(2) mset_single_iff)

lemma map_range_id: "map_range (\<lambda>obj. obj)"
  by (simp add: map_range_def)

lemma map_range_rev: "map_range rev"
  by (simp add: map_range_def)

section \<open>A bare string and a one-element sequence\<close>

text \<open>
  C7. For each of the six conditions and every string \<open>v\<close>, the builder gives the same
  result (the same body, or the same error) for the bare string \<open>v\<close> as for the
  one-element sequence \<open>[v]\<close>; a value that is neither a string nor a sequence, which is
  an object, gives the error of the type switch.
\<close>

theorem bare_string_same_as_singleton:
  "addCertFingerprintCondition L body (parser_String v)
     = addCertFingerprintCondition L body (parser_Array [parser_String v])
   \<and> addCertSPKIHashCondition L body (parser_String v)
     = addCertSPKIHashCondition L body (parser_Array [parser_String v])
   \<and> addSanEmailCondition L body (parser_String v)
     = addSanEmailCondition L body (parser_Array [parser_String v])
   \<and> addSanDNSCondition L body (parser_String v)
     = addSanDNSCondition L body (parser_Array [parser_String v])
   \<and> addSanIPCondition L body (parser_String v)
     = addSanIPCondition L body (parser_Array [parser_String v])
   \<and> addSanURICondition L body (parser_String v)
     = addSanURICondition L body (parser_Array [parser_String v])
   \<and> addCertFingerprintCondition L body (parser_Object obj)
     = Inl ''certificate fingerprint condition expects a string or array of strings''
   \<and> addCertSPKIHashCondition L body (parser_Object obj)
     = Inl ''certificate SPKI hash condition expects a string or array of strings''
   \<and> addSanEmailCondition L body (parser_Object obj)
     = Inl ''certificate SAN email condition expects a string or array of strings''
   \<and> addSanDNSCondition L body (parser_Object obj)
     = Inl ''certificate SAN dns condition expects a string or array of strings''
   \<and> addSanIPCondition L body (parser_Object obj)
     = Inl ''certificate SAN IP condition expects a string or array of strings''
   \<and> addSanURICondition L body (parser_Object obj)
     = Inl ''certificate SAN URI condition expects a string or array of strings''"
  by (simp add: addCertFingerprintCondition_def addCertSPKIHashCondition_def
      addSanEmailCondition_def addSanDNSCondition_def addSanIPCondition_def
      addSanURICondition_def)

theorem bare_string_same_as_singleton_witness:
  "addSanEmailCondition example_lib clientCertificateBaseBody (parser_String ''a@example.com'')
     = addSanEmailCondition example_lib clientCertificateBaseBody
         (parser_Array [parser_String ''a@example.com''])
   \<and> addSanEmailCondition example_lib clientCertificateBaseBody (parser_String ''a@example.com'')
     = Inr (clientCertificateBaseBody @
         [Assign (ast_Var ''allowed_san_emails'') (ast_Array [ast_String ''a@example.com'']),
          Equal (ast_Var ''allowed_san_emails[_]'') (ast_Var ''san_email_addresses[_]'')])
   \<and> addSanEmailCondition example_lib clientCertificateBaseBody (parser_Object [])
     = Inl ''certificate SAN email condition expects a string or array of strings''"
proof -
  have "addSanEmailCondition example_lib clientCertificateBaseBody
          (parser_Array [parser_String ''a@example.com''])
     = Inr (clientCertificateBaseBody @
         [Assign (ast_Var ''allowed_san_emails'') (ast_Array [ast_String ''a@example.com'']),
          Equal (ast_Var ''allowed_san_emails[_]'') (ast_Var ''san_email_addresses[_]'')])"
    by (simp add: addSanEmailCondition_def sanEmailElement_def example_lib_def)
  with bare_string_same_as_singleton
    [of example_lib clientCertificateBaseBody "''a@example.com''" "[]"]
  show ?thesis by simp
qed

section \<open>SPKI hashes\<close>

lemma spkiHashElement_string:
  "spkiHashElement L (parser_String h) =
     (if h \<noteq> [] \<and> decodes_to_32 L h then Inr (ast_String h)
      else if h = [] then Inl ''certificate SPKI hash must not be empty''
      else Inl (''certificate SPKI hash must be a base64-encoded SHA-256 hash (was '' @ h @ '')''))"
  by (simp add: spkiHashElement_def decodes_to_32_def split: option.splits)

lemma spkiHashElement_Inr_iff:
  "(\<exists>t. spkiHashElement L v = Inr t) = (\<exists>h. v = parser_String h \<and> h \<noteq> [] \<and> decodes_to_32 L h)"
  by (cases v) (auto simp: spkiHashElement_string, auto simp: spkiHashElement_def)

lemma spki_map_ok:
  "list_all (\<lambda>h. h \<noteq> [] \<and> decodes_to_32 L h) hs \<Longrightarrow>
     range_elements (spkiHashElement L) ra (map parser_String hs) = Inr (ra @ map ast_String hs)"
  by (induction hs arbitrary: ra) (simp_all add: spkiHashElement_string)

text \<open>
  C4. An element of an \<^verbatim>\<open>spki_hash\<close> condition is accepted exactly when it is a
  string, not empty, that \<^verbatim>\<open>base64.StdEncoding.DecodeString\<close> decodes to 32 bytes,
  and then the string itself is the term of the allow-list. The empty string, a string
  that does not decode and a string that decodes to another number of bytes give an error.
  For a sequence of accepted strings the builder binds \<^verbatim>\<open>allowed_spki_hashes\<close> to
  exactly these strings; a sequence with an element that is not accepted gives an error.
\<close>

theorem addCertSPKIHashCondition_accepts:
  "((\<exists>t. spkiHashElement L v = Inr t)
      = (\<exists>h. v = parser_String h \<and> h \<noteq> [] \<and> decodes_to_32 L h))
   \<and> (h \<noteq> [] \<and> decodes_to_32 L h \<longrightarrow> spkiHashElement L (parser_String h) = Inr (ast_String h))
   \<and> spkiHashElement L (parser_String []) = Inl ''certificate SPKI hash must not be empty''
   \<and> (base64_DecodeString L h = None \<longrightarrow> (\<exists>err. spkiHashElement L (parser_String h) = Inl err))
   \<and> (base64_DecodeString L h = Some b \<and> length b \<noteq> 32 \<longrightarrow>
         (\<exists>err. spkiHashElement L (parser_String h) = Inl err))
   \<and> (list_all (\<lambda>h. h \<noteq> [] \<and> decodes_to_32 L h) hs \<longrightarrow>
         addCertSPKIHashCondition L body (parser_Array (map parser_String hs))
           = Inr (body @
               [Assign (ast_Var ''allowed_spki_hashes'') (ast_Array (map ast_String hs)),
                Equal (ast_Var ''spki_hash'') (ast_Var ''allowed_spki_hashes[_]'')]))
   \<and> (\<not> list_all (\<lambda>v. \<exists>h. v = parser_String h \<and> h \<noteq> [] \<and> decodes_to_32 L h) pa \<longrightarrow>
         (\<exists>err. addCertSPKIHashCondition L body (parser_Array pa) = Inl err))"
proof -
  have 1: "addCertSPKIHashCondition L body (parser_Array (map parser_String hs))
           = Inr (body @
               [Assign (ast_Var ''allowed_spki_hashes'') (ast_Array (map ast_String hs)),
                Equal (ast_Var ''spki_hash'') (ast_Var ''allowed_spki_hashes[_]'')])"
    if "list_all (\<lambda>h. h \<noteq> [] \<and> decodes_to_32 L h) hs"
    using spki_map_ok [OF that, of "[]"] by (simp add: addCertSPKIHashCondition_def)
  have 2: "\<exists>err. addCertSPKIHashCondition L body (parser_Array pa) = Inl err"
    if "\<not> list_all (\<lambda>v. \<exists>h. v = parser_String h \<and> h \<noteq> [] \<and> decodes_to_32 L h) pa"
  proof -
    have "(\<lambda>v. \<exists>h. v = parser_String h \<and> h \<noteq> [] \<and> decodes_to_32 L h)
        = (\<lambda>v. \<not> isl (spkiHashElement L v))"
      using spkiHashElement_Inr_iff [of L] by (metis isl_def sum.collapse(2) sum.disc(2))
    with that have "\<not> list_all (\<lambda>v. \<not> isl (spkiHashElement L v)) pa" by simp
    from range_elements_error [OF this, of "[]"] show ?thesis
      by (auto simp: addCertSPKIHashCondition_def)
  qed
  have 3: "base64_DecodeString L h = None \<longrightarrow> (\<exists>err. spkiHashElement L (parser_String h) = Inl err)"
    by (simp add: spkiHashElement_string decodes_to_32_def)
  have 4: "base64_DecodeString L h = Some b \<and> length b \<noteq> 32 \<longrightarrow>
         (\<exists>err. spkiHashElement L (parser_String h) = Inl err)"
    by (simp add: spkiHashElement_string decodes_to_32_def)
  from 1 2 3 4 spkiHashElement_Inr_iff [of L v] show ?thesis
    by (simp add: spkiHashElement_string)
qed

theorem addCertSPKIHashCondition_accepts_witness:
  "decodes_to_32 example_lib ''AAAAAAAAAAAAAAAAAAAAAAAAAAAAAAAAAAAAAAAAAAA=''
   \<and> addCertSPKIHashCondition example_lib clientCertificateBaseBody
         (parser_Array [parser_String ''AAAAAAAAAAAAAAAAAAAAAAAAAAAAAAAAAAAAAAAAAAA=''])
       = Inr (clientCertificateBaseBody @
           [Assign (ast_Var ''allowed_spki_hashes'')
              (ast_Array [ast_String ''AAAAAAAAAAAAAAAAAAAAAAAAAAAAAAAAAAAAAAAAAAA='']),
            Equal (ast_Var ''spki_hash'') (ast_Var ''allowed_spki_hashes[_]'')])
   \<and> base64_DecodeString example_lib ''AAAA'' = Some (replicate 3 (CHR 0x00))
   \<and> (\<exists>err. spkiHashElement example_lib (parser_String ''AAAA'') = Inl err)
   \<and> base64_DecodeString example_lib ''!'' = None
   \<and> (\<exists>err. spkiHashElement example_lib (parser_String ''!'') = Inl err)
   \<and> (\<exists>err. addCertSPKIHashCondition example_lib clientCertificateBaseBody
         (parser_Array [parser_String ''AAAA'']) = Inl err)"
proof -
  let ?h = "''AAAAAAAAAAAAAAAAAAAAAAAAAAAAAAAAAAAAAAAAAAA=''"
  have d: "decodes_to_32 example_lib ?h"
    by (simp add: decodes_to_32_def example_lib_def)
  have b: "base64_DecodeString example_lib ''AAAA'' = Some (replicate 3 (CHR 0x00))"
    "base64_DecodeString example_lib ''!'' = None"
    by (simp_all add: example_lib_def)
  have n: "\<not> decodes_to_32 example_lib ''AAAA''"
    by (simp add: decodes_to_32_def example_lib_def)
  from addCertSPKIHashCondition_accepts
    [of example_lib _ ?h _ "[?h]" clientCertificateBaseBody "[]"] d
  have 1: "addCertSPKIHashCondition example_lib clientCertificateBaseBody
         (parser_Array [parser_String ?h])
       = Inr (clientCertificateBaseBody @
           [Assign (ast_Var ''allowed_spki_hashes'') (ast_Array [ast_String ?h]),
            Equal (ast_Var ''spki_hash'') (ast_Var ''allowed_spki_hashes[_]'')])"
    by simp
  from addCertSPKIHashCondition_accepts
    [of example_lib _ "''AAAA''" "replicate 3 (CHR 0x00)" _ clientCertificateBaseBody
      "[parser_String ''AAAA'']"] b n
  have 2: "\<exists>err. spkiHashElement example_lib (parser_String ''AAAA'') = Inl err"
    and 3: "\<exists>err. addCertSPKIHashCondition example_lib clientCertificateBaseBody
         (parser_Array [parser_String ''AAAA'']) = Inl err"
    by simp_all
  from addCertSPKIHashCondition_accepts [of example_lib _ "''!''"] b
  have 4: "\<exists>err. spkiHashElement example_lib (parser_String ''!'') = Inl err"
    by blast
  from d b 1 2 3 4 show ?thesis by blast
qed

section \<open>The empty string as a URI\<close>

lemma rxDNSName_empty: "\<not> rxDNSName []"
  by (simp add: rxDNSName_def)

text \<open>
  C10. The loop of the \<^verbatim>\<open>uri\<close> builder checks a string with \<^verbatim>\<open>url.Parse\<close> and with
  nothing else: it accepts exactly the strings that parse, and the term of the allow-list
  is the string itself. So when \<^verbatim>\<open>url.Parse\<close> of the empty string succeeds, the builder
  accepts the empty string and binds \<^verbatim>\<open>allowed_san_uris\<close> to the sequence holding it.
  The other builders give an error for the empty string: \<^verbatim>\<open>fingerprint\<close> and
  \<^verbatim>\<open>spki_hash\<close> by their own test, \<^verbatim>\<open>dns\<close> by its pattern, \<^verbatim>\<open>email\<close> and
  \<^verbatim>\<open>ip\<close> when their parser refuses it.
\<close>

theorem addSanURICondition_empty_string:
  "sanURIElement L (parser_String s)
     = (if url_Parse L s then Inr (ast_String s)
        else Inl (''certificate SAN URI must be a valid URI (was '' @ s @ '')''))
   \<and> (url_Parse L [] \<longrightarrow>
         addSanURICondition L body (parser_String [])
           = Inr (body @ Assign (ast_Var ''allowed_san_uris'') (ast_Array [ast_String []])
                   # uriCheckBody))
   \<and> addCertFingerprintCondition L body (parser_String [])
       = Inl ''certificate fingerprint must not be empty''
   \<and> addCertSPKIHashCondition L body (parser_String [])
       = Inl ''certificate SPKI hash must not be empty''
   \<and> addSanDNSCondition L body (parser_String [])
       = Inl ''certificate SAN dns must be a valid DNS name (was )''
   \<and> (\<not> mail_ParseAddress L [] \<longrightarrow>
         addSanEmailCondition L body (parser_String [])
           = Inl ''certificate SAN email must be a valid email address (was )'')
   \<and> (\<not> net_ParseIP L [] \<longrightarrow>
         addSanIPCondition L body (parser_String [])
           = Inl ''certificate SAN IP must be a valid IP address (was )'')"
  by (simp add: sanURIElement_def addSanURICondition_def addCertFingerprintCondition_def
      canonicalCertFingerprint_def addCertSPKIHashCondition_def spkiHashElement_def
      addSanDNSCondition_def sanDNSElement_def rxDNSName_empty addSanEmailCondition_def
      sanEmailElement_def addSanIPCondition_def sanIPElement_def)

theorem addSanURICondition_empty_string_witness:
  "url_Parse example_lib []
   \<and> addSanURICondition example_lib clientCertificateBaseBody (parser_String [])
       = Inr (clientCertificateBaseBody @
           Assign (ast_Var ''allowed_san_uris'') (ast_Array [ast_String []]) # uriCheckBody)
   \<and> \<not> mail_ParseAddress example_lib []
   \<and> addSanEmailCondition example_lib clientCertificateBaseBody (parser_String [])
       = Inl ''certificate SAN email must be a valid email address (was )''
   \<and> \<not> net_ParseIP example_lib []
   \<and> addSanIPCondition example_lib clientCertificateBaseBody (parser_String [])
       = Inl ''certificate SAN IP must be a valid IP address (was )''"
proof -
  have h: "url_Parse example_lib []" "\<not> mail_ParseAddress example_lib []"
    "\<not> net_ParseIP example_lib []"
    by (simp_all add: example_lib_def)
  with addSanURICondition_empty_string [of example_lib "[]" clientCertificateBaseBody]
  show ?thesis by simp
qed

section \<open>Errors of a condition\<close>















lemma GenerateRule_Object:
  "GenerateRule L visit (parser_Object obj) =
     (case range_obj L clientCertificateBaseBody (visit obj) of
        Inl err \<Rightarrow> Inl err
      | Inr body \<Rightarrow>
          Inr (NewCriterionRule Name ReasonClientCertificateOK
                 ReasonClientCertificateUnauthorized body, []))"
  by (simp add: GenerateRule_def)

lemma GenerateRule_error:
  assumes "map_range visit" and "kv \<in> set obj" and "\<not> entry_ok L kv"
  shows "\<exists>err. GenerateRule L visit (parser_Object obj) = Inl err"
proof -
  from assms have "\<not> list_all (entry_ok L) (visit obj)"
    by (auto simp: list_all_iff map_range_set)
  from range_obj_error [OF this, of clientCertificateBaseBody] show ?thesis
    by (auto simp: GenerateRule_Object)
qed

lemma GenerateRule_first_error:
  assumes "visit obj = pre @ (k, v) # post" and "list_all (entry_ok L) pre"
    and "switch_k L [] k v = Inl err"
  shows "GenerateRule L visit (parser_Object obj) = Inl err"
  using range_obj_first_error [OF assms(2,3), of clientCertificateBaseBody post] assms(1)
  by (simp add: GenerateRule_Object)

lemma GenerateRule_single_error:
  assumes "map_range visit" and "switch_k L [] k v = Inl err"
  shows "GenerateRule L visit (parser_Object [(k, v)]) = Inl err"
  using GenerateRule_first_error [of visit "[(k, v)]" "[]" k v "[]" L err] assms
  by (simp add: map_range_single)

lemma GenerateRule_ok:
  assumes "list_all (entry_ok L) (visit obj)"
  shows "GenerateRule L visit (parser_Object obj) =
     Inr (NewCriterionRule Name ReasonClientCertificateOK ReasonClientCertificateUnauthorized
           (clientCertificateBaseBody @ concat (map (entry_fragment L) (visit obj))), [])"
  using range_obj_ok [OF assms, of clientCertificateBaseBody]
  by (simp add: GenerateRule_Object)




section \<open>Keys without a builder, and values that are not objects\<close>

text \<open>
  C6, as the code has it. A compile of an object that has a key outside the six cases of
  the \<^verbatim>\<open>switch\<close> returns an error and no rule, for every order of visiting the
  entries. The error is the one that names the key when every entry visited before that key
  builds without an error, which is so when the key is the only entry. A value that is a
  string or a sequence, not an object, gives the error that names its type.
\<close>

theorem unsupported_key_is_an_error:
  "(k \<notin> set condition_keys \<and> map_range visit \<and> (k, v) \<in> set obj \<longrightarrow>
      (\<exists>err. GenerateRule L visit (parser_Object obj) = Inl err))
   \<and> (k \<notin> set condition_keys \<and> visit obj = pre @ (k, v) # post \<and> list_all (entry_ok L) pre \<longrightarrow>
        GenerateRule L visit (parser_Object obj)
          = Inl (''unsupported certificate matcher condition: '' @ k))
   \<and> (k \<notin> set condition_keys \<and> map_range visit \<longrightarrow>
        GenerateRule L visit (parser_Object [(k, v)])
          = Inl (''unsupported certificate matcher condition: '' @ k))
   \<and> GenerateRule L visit (parser_String s)
       = Inl ''expected object for certificate matcher, got: parser.String''
   \<and> GenerateRule L visit (parser_Array a)
       = Inl ''expected object for certificate matcher, got: parser.Array''"
proof -
  have e: "switch_k L [] k v = Inl (''unsupported certificate matcher condition: '' @ k)"
    if "k \<notin> set condition_keys"
    using that by (rule switch_k_unknown)
  have 1: "\<exists>err. GenerateRule L visit (parser_Object obj) = Inl err"
    if "k \<notin> set condition_keys" "map_range visit" "(k, v) \<in> set obj"
    using that(2,3)
  proof (rule GenerateRule_error)
    show "\<not> entry_ok L (k, v)" by (simp add: entry_ok_pair e [OF that(1)])
  qed
  have 2: "GenerateRule L visit (parser_Object obj)
      = Inl (''unsupported certificate matcher condition: '' @ k)"
    if "k \<notin> set condition_keys" "visit obj = pre @ (k, v) # post" "list_all (entry_ok L) pre"
    using that(2,3) e [OF that(1)] by (rule GenerateRule_first_error)
  have 3: "GenerateRule L visit (parser_Object [(k, v)])
      = Inl (''unsupported certificate matcher condition: '' @ k)"
    if "k \<notin> set condition_keys" "map_range visit"
    using that(2) e [OF that(1)] by (rule GenerateRule_single_error)
  have 4: "GenerateRule L visit (parser_String s)
       = Inl ''expected object for certificate matcher, got: parser.String''"
    "GenerateRule L visit (parser_Array a)
       = Inl ''expected object for certificate matcher, got: parser.Array''"
    by (simp_all add: GenerateRule_def)
  from 1 2 3 4 show ?thesis by blast
qed

theorem unsupported_key_is_an_error_witness:
  "''bogus_key'' \<notin> set condition_keys
   \<and> map_range id
   \<and> GenerateRule example_lib id (parser_Object [(''bogus_key'', parser_String ''x'')])
       = Inl ''unsupported certificate matcher condition: bogus_key''
   \<and> list_all (entry_ok example_lib) [(''ip'', parser_String ''::1'')]
   \<and> GenerateRule example_lib id
        (parser_Object [(''ip'', parser_String ''::1''), (''bogus_key'', parser_String ''x'')])
       = Inl ''unsupported certificate matcher condition: bogus_key''
   \<and> (\<exists>err. GenerateRule example_lib rev
        (parser_Object [(''ip'', parser_String ''::1''), (''bogus_key'', parser_String ''x'')])
       = Inl err)"
proof -
  let ?obj = "[(''ip'', parser_String ''::1''), (''bogus_key'', parser_String ''x'')]"
  have k: "''bogus_key'' \<notin> set condition_keys"
    by (simp add: condition_keys_def)
  have m: "map_range id" "map_range rev"
    by (simp_all add: map_range_def)
  have ok: "list_all (entry_ok example_lib) [(''ip'', parser_String ''::1'')]"
    by (simp add: entry_ok_pair switch_k_def addSanIPCondition_def sanIPElement_def
        example_lib_def)
  have v: "id ?obj = [(''ip'', parser_String ''::1'')] @ (''bogus_key'', parser_String ''x'') # []"
    by simp
  have i: "(''bogus_key'', parser_String ''x'') \<in> set ?obj"
    by simp
  from unsupported_key_is_an_error
    [of "''bogus_key''" id "parser_String ''x''" ?obj example_lib
      "[(''ip'', parser_String ''::1'')]" "[]"] k m(1) ok v
  have 1: "GenerateRule example_lib id (parser_Object ?obj)
       = Inl ''unsupported certificate matcher condition: bogus_key''"
    and 2: "GenerateRule example_lib id (parser_Object [(''bogus_key'', parser_String ''x'')])
       = Inl ''unsupported certificate matcher condition: bogus_key''"
    by simp_all
  from unsupported_key_is_an_error [of "''bogus_key''" rev "parser_String ''x''" ?obj example_lib]
    k m(2) i
  have 3: "\<exists>err. GenerateRule example_lib rev (parser_Object ?obj) = Inl err"
    by blast
  from k m(1) ok 1 2 3 show ?thesis by blast
qed

text \<open>
  The claim as the specification words it fails where an entry visited before the
  unsupported key has an error of its own: the compile returns that error, which does not
  name the key.
\<close>

theorem unsupported_key_not_named_counterexample:
  "''bogus_key'' \<notin> set condition_keys
   \<and> map_range id
   \<and> GenerateRule example_lib id
        (parser_Object [(''fingerprint'', parser_String []), (''bogus_key'', parser_String ''x'')])
       = Inl ''certificate fingerprint must not be empty''
   \<and> \<not> sublist ''bogus_key'' ''certificate fingerprint must not be empty''"
proof -
  have k: "''bogus_key'' \<notin> set condition_keys"
    by (simp add: condition_keys_def)
  have m: "map_range id"
    by (simp add: map_range_def)
  have g: "GenerateRule example_lib id
        (parser_Object [(''fingerprint'', parser_String []), (''bogus_key'', parser_String ''x'')])
       = Inl ''certificate fingerprint must not be empty''"
    by (simp add: GenerateRule_def switch_k_def addCertFingerprintCondition_def
        canonicalCertFingerprint_def)
  have n: "\<not> sublist ''bogus_key'' ''certificate fingerprint must not be empty''"
    by code_simp
  from k m g n show ?thesis by blast
qed

section \<open>Two compiles of the same value\<close>





lemma GenerateRule_Inr:
  assumes "GenerateRule L visit data = Inr (r, aux)"
  shows "\<exists>obj. data = parser_Object obj \<and> list_all (entry_ok L) (visit obj) \<and> aux = []
    \<and> r = NewCriterionRule Name ReasonClientCertificateOK ReasonClientCertificateUnauthorized
          (clientCertificateBaseBody @ concat (map (entry_fragment L) (visit obj)))"
proof (cases data)
  case (parser_Object obj)
  show ?thesis
  proof (cases "list_all (entry_ok L) (visit obj)")
    case True
    from GenerateRule_ok [of L visit obj] assms parser_Object True show ?thesis by simp
  next
    case False
    from range_obj_error [OF this, of clientCertificateBaseBody] assms parser_Object
    show ?thesis by (auto simp: GenerateRule_Object)
  qed
qed (use assms in \<open>simp_all add: GenerateRule_def\<close>)



lemma example_dns_entry:
  "switch_k example_lib body ''dns'' (parser_String ''a.example.com'')
     = Inr (body @
         [Assign (ast_Var ''allowed_san_dns_names'') (ast_Array [ast_String ''a.example.com'']),
          Equal (ast_Var ''allowed_san_dns_names[_]'') (ast_Var ''san_dns_names[_]'')])"
proof -
  have "rxDNSName ''a.example.com''" by code_simp
  then show ?thesis
    by (simp add: switch_k_def addSanDNSCondition_def sanDNSElement_def)
qed

lemma example_ip_entry:
  "switch_k example_lib body ''ip'' (parser_String ''192.168.1.1'')
     = Inr (body @
         [Assign (ast_Var ''allowed_san_ip_addresses'') (ast_Array [ast_String ''192.168.1.1'']),
          Equal (ast_Var ''allowed_san_ip_addresses[_]'') (ast_Var ''san_ip_addresses[_]'')])"
  by (simp add: switch_k_def addSanIPCondition_def sanIPElement_def example_lib_def)

lemma example_dns_ip:
  "GenerateRule example_lib id
     (parser_Object [(''dns'', parser_String ''a.example.com''),
                     (''ip'', parser_String ''192.168.1.1'')])
     = Inr (NewCriterionRule Name ReasonClientCertificateOK ReasonClientCertificateUnauthorized
             (clientCertificateBaseBody @
               [Assign (ast_Var ''allowed_san_dns_names'') (ast_Array [ast_String ''a.example.com'']),
                Equal (ast_Var ''allowed_san_dns_names[_]'') (ast_Var ''san_dns_names[_]''),
                Assign (ast_Var ''allowed_san_ip_addresses'') (ast_Array [ast_String ''192.168.1.1'']),
                Equal (ast_Var ''allowed_san_ip_addresses[_]'') (ast_Var ''san_ip_addresses[_]'')]),
            [])"
  by (simp add: GenerateRule_def example_dns_entry example_ip_entry)




section \<open>Names in constraints\<close>

lemma unbound_names_append:
  "unbound_names binds B (xs @ ys) =
     unbound_names binds B xs @ unbound_names binds (concat (map binds (rev xs)) @ B) ys"
  by (induction xs arbitrary: B) simp_all

lemma unbound_names_mono:
  "set B \<subseteq> set B' \<Longrightarrow> unbound_names binds B es = [] \<Longrightarrow> unbound_names binds B' es = []"
proof (induction es arbitrary: B B')
  case Nil
  show ?case by simp
next
  case (Cons e es)
  from Cons.prems have 1: "filter (\<lambda>x. x \<notin> set B') (constraint_names e) = []"
    by (auto simp: filter_empty_conv)
  from Cons.prems have "set (binds e @ B) \<subseteq> set (binds e @ B')"
    and "unbound_names binds (binds e @ B) es = []"
    by auto
  then have "unbound_names binds (binds e @ B') es = []" by (rule Cons.IH)
  with 1 show ?case by simp
qed

lemma unbound_names_concat:
  "\<forall>f \<in> set fs. unbound_names binds B0 f = [] \<Longrightarrow> set B0 \<subseteq> set B \<Longrightarrow>
     unbound_names binds B (concat fs) = []"
proof (induction fs arbitrary: B)
  case Nil
  show ?case by simp
next
  case (Cons f fs)
  from Cons.prems have "unbound_names binds B0 f = []" by simp
  with Cons.prems(2) have 1: "unbound_names binds B f = []" by (rule unbound_names_mono)
  from Cons.prems have "set B0 \<subseteq> set (concat (map binds (rev f)) @ B)" by auto
  with Cons have "unbound_names binds (concat (map binds (rev f)) @ B) (concat fs) = []"
    by simp
  with 1 show ?case by (simp add: unbound_names_append)
qed

lemma var_names:
  "var_name ''allowed_fingerprints[_]'' = ''allowed_fingerprints''"
  "var_name ''allowed_spki_hashes[_]'' = ''allowed_spki_hashes''"
  "var_name ''allowed_san_emails[_]'' = ''allowed_san_emails''"
  "var_name ''allowed_san_dns_names[_]'' = ''allowed_san_dns_names''"
  "var_name ''allowed_san_ip_addresses[_]'' = ''allowed_san_ip_addresses''"
  "var_name ''san_email_addresses[_]'' = ''san_email_addresses''"
  "var_name ''san_dns_names[_]'' = ''san_dns_names''"
  "var_name ''san_ip_addresses[_]'' = ''san_ip_addresses''"
  "var_name ''fingerprint'' = ''fingerprint''"
  "var_name ''spki_hash'' = ''spki_hash''"
  "var_name ''san_uris'' = ''san_uris''"
  "var_name ''san_uri_index'' = ''san_uri_index''"
  "var_name ''allowed_san_uris'' = ''allowed_san_uris''"
  by (simp_all add: var_name_def)

lemma fragment_assigned:
  "k \<in> set condition_keys \<Longrightarrow> k \<noteq> ''uri'' \<Longrightarrow>
     unbound_names assigned fact_names (fragment k ra) = []"
  by (auto simp: condition_keys_def fragment_def fact_names_def var_names)

lemma fragment_declared:
  "k \<in> set condition_keys \<Longrightarrow> unbound_names declared fact_names (fragment k ra) = []"
  by (auto simp: condition_keys_def fragment_def fact_names_def var_names uriCheckBody_def)

lemma fragment_uri_assigned:
  "unbound_names assigned fact_names (fragment ''uri'' ra)
     = [''san_uri_index'', ''san_uri_index'', ''san_uri_index'']"
  by (simp add: fragment_def fact_names_def var_names uriCheckBody_def)

lemma entry_fragment_cases:
  "entry_fragment L (k, v) = [] \<or> (k \<in> set condition_keys \<and> (\<exists>ra. entry_fragment L (k, v) = fragment k ra))"
proof (cases "k \<in> set condition_keys")
  case True
  then show ?thesis
    by (auto simp: entry_fragment_pair switch_k_known split: option.splits sum.splits)
next
  case False
  then show ?thesis by (simp add: entry_fragment_pair switch_k_unknown)
qed

lemma entry_fragment_declared: "unbound_names declared fact_names (entry_fragment L kv) = []"
  using entry_fragment_cases [of L "fst kv" "snd kv"] by (auto simp: fragment_declared)

lemma entry_fragment_assigned:
  "fst kv \<noteq> ''uri'' \<Longrightarrow> unbound_names assigned fact_names (entry_fragment L kv) = []"
  using entry_fragment_cases [of L "fst kv" "snd kv"] by (auto simp: fragment_assigned)

lemma base_body_names:
  "unbound_names binds B clientCertificateBaseBody = []"
  by (simp add: clientCertificateBaseBody_def)

lemma base_body_assigned:
  "set fact_names \<subseteq> set (concat (map assigned (rev clientCertificateBaseBody)) @ B)"
  by (simp add: clientCertificateBaseBody_def fact_names_def)

lemma base_body_declared:
  "set fact_names \<subseteq> set (concat (map declared (rev clientCertificateBaseBody)) @ B)"
  by (simp add: clientCertificateBaseBody_def fact_names_def)

text \<open>
  C8, as the code has it. In the body of every rule a compile returns, every name that a
  constraint refers to is bound by an assignment before the constraint, or is one of the
  fact names of the prologue, or is declared before the constraint by \<^verbatim>\<open>some\<close>, as
  \<^verbatim>\<open>san_uri_index\<close> is in the statements of the \<^verbatim>\<open>uri\<close> builder. The fact names are
  themselves bound by the assignments of the prologue, so the same holds with no name
  given in advance. When the object has no \<^verbatim>\<open>uri\<close> entry the assignments and the fact
  names are enough.
\<close>

theorem constraint_names_are_bound:
  assumes "GenerateRule L visit data = Inr (r, aux)"
  shows "unbound_names declared fact_names (rule_body r) = []
    \<and> unbound_names declared [] (rule_body r) = []
    \<and> ((\<forall>obj. data = parser_Object obj \<longrightarrow> ''uri'' \<notin> fst ` set (visit obj)) \<longrightarrow>
         unbound_names assigned fact_names (rule_body r) = []
         \<and> unbound_names assigned [] (rule_body r) = [])"
proof -
  from GenerateRule_Inr [OF assms] obtain obj where d: "data = parser_Object obj"
    and b: "rule_body r
      = clientCertificateBaseBody @ concat (map (entry_fragment L) (visit obj))"
    by (auto simp: NewCriterionRule_def)
  have 1: "unbound_names declared B (rule_body r) = []" for B
  proof -
    have "\<forall>f \<in> set (map (entry_fragment L) (visit obj)).
        unbound_names declared fact_names f = []"
      by (simp add: entry_fragment_declared)
    from unbound_names_concat [OF this base_body_declared [of B]]
    show ?thesis
      unfolding b unbound_names_append by (simp add: base_body_names)
  qed
  have 2: "unbound_names assigned B (rule_body r) = []"
    if "''uri'' \<notin> fst ` set (visit obj)" for B
  proof -
    from that have "\<forall>f \<in> set (map (entry_fragment L) (visit obj)).
        unbound_names assigned fact_names f = []"
      by (force intro!: entry_fragment_assigned)
    from unbound_names_concat [OF this base_body_assigned [of B]]
    show ?thesis
      unfolding b unbound_names_append by (simp add: base_body_names)
  qed
  from 1 2 d show ?thesis by blast
qed

lemma example_uri:
  "GenerateRule example_lib id
     (parser_Object [(''uri'', parser_String ''spiffe://cluster/ns/default/sa/foo'')])
     = Inr (NewCriterionRule Name ReasonClientCertificateOK ReasonClientCertificateUnauthorized
             (clientCertificateBaseBody @
               Assign (ast_Var ''allowed_san_uris'')
                 (ast_Array [ast_String ''spiffe://cluster/ns/default/sa/foo''])
               # uriCheckBody),
            [])"
  by (simp add: GenerateRule_def switch_k_def addSanURICondition_def sanURIElement_def
      example_lib_def)

theorem constraint_names_are_bound_witness:
  "GenerateRule example_lib id
     (parser_Object [(''uri'', parser_String ''spiffe://cluster/ns/default/sa/foo'')])
     = Inr (NewCriterionRule Name ReasonClientCertificateOK ReasonClientCertificateUnauthorized
             (clientCertificateBaseBody @
               Assign (ast_Var ''allowed_san_uris'')
                 (ast_Array [ast_String ''spiffe://cluster/ns/default/sa/foo''])
               # uriCheckBody),
            [])
   \<and> unbound_names declared fact_names
        (clientCertificateBaseBody @
          Assign (ast_Var ''allowed_san_uris'')
            (ast_Array [ast_String ''spiffe://cluster/ns/default/sa/foo''])
          # uriCheckBody) = []
   \<and> ''uri'' \<notin> fst ` set (id [(''dns'', parser_String ''a.example.com''),
                                  (''ip'', parser_String ''192.168.1.1'')])
   \<and> unbound_names assigned fact_names
        (clientCertificateBaseBody @
          [Assign (ast_Var ''allowed_san_dns_names'') (ast_Array [ast_String ''a.example.com'']),
           Equal (ast_Var ''allowed_san_dns_names[_]'') (ast_Var ''san_dns_names[_]''),
           Assign (ast_Var ''allowed_san_ip_addresses'') (ast_Array [ast_String ''192.168.1.1'']),
           Equal (ast_Var ''allowed_san_ip_addresses[_]'') (ast_Var ''san_ip_addresses[_]'')]) = []"
proof -
  have n: "''uri'' \<notin> fst ` set (id [(''dns'', parser_String ''a.example.com''),
                                    (''ip'', parser_String ''192.168.1.1'')])"
    by simp
  from constraint_names_are_bound [OF example_uri]
  have 1: "unbound_names declared fact_names
        (clientCertificateBaseBody @
          Assign (ast_Var ''allowed_san_uris'')
            (ast_Array [ast_String ''spiffe://cluster/ns/default/sa/foo''])
          # uriCheckBody) = []"
    by (simp add: NewCriterionRule_def)
  from constraint_names_are_bound [OF example_dns_ip] n
  have 2: "unbound_names assigned fact_names
        (clientCertificateBaseBody @
          [Assign (ast_Var ''allowed_san_dns_names'') (ast_Array [ast_String ''a.example.com'']),
           Equal (ast_Var ''allowed_san_dns_names[_]'') (ast_Var ''san_dns_names[_]''),
           Assign (ast_Var ''allowed_san_ip_addresses'') (ast_Array [ast_String ''192.168.1.1'']),
           Equal (ast_Var ''allowed_san_ip_addresses[_]'') (ast_Var ''san_ip_addresses[_]'')]) = []"
    by (simp add: NewCriterionRule_def)
  from example_uri n 1 2 show ?thesis by blast
qed

text \<open>
  The claim as the specification words it, with assignments and fact names only, fails for
  a \<^verbatim>\<open>uri\<close> condition: the constraint of \<^verbatim>\<open>uriCheckBody\<close> refers three times to
  \<^verbatim>\<open>san_uri_index\<close>, which no assignment binds and which is no fact name.
\<close>

theorem constraint_names_counterexample:
  "GenerateRule example_lib id
     (parser_Object [(''uri'', parser_String ''spiffe://cluster/ns/default/sa/foo'')])
     = Inr (NewCriterionRule Name ReasonClientCertificateOK ReasonClientCertificateUnauthorized
             (clientCertificateBaseBody @
               Assign (ast_Var ''allowed_san_uris'')
                 (ast_Array [ast_String ''spiffe://cluster/ns/default/sa/foo''])
               # uriCheckBody),
            [])
   \<and> unbound_names assigned fact_names
        (rule_body (NewCriterionRule Name ReasonClientCertificateOK
           ReasonClientCertificateUnauthorized
           (clientCertificateBaseBody @
             Assign (ast_Var ''allowed_san_uris'')
               (ast_Array [ast_String ''spiffe://cluster/ns/default/sa/foo''])
             # uriCheckBody)))
     = [''san_uri_index'', ''san_uri_index'', ''san_uri_index'']"
proof -
  have "unbound_names assigned fact_names
        (clientCertificateBaseBody @
          Assign (ast_Var ''allowed_san_uris'')
            (ast_Array [ast_String ''spiffe://cluster/ns/default/sa/foo''])
          # uriCheckBody)
     = [''san_uri_index'', ''san_uri_index'', ''san_uri_index'']"
    by (simp add: unbound_names_append base_body_names uriCheckBody_def fact_names_def
        clientCertificateBaseBody_def var_names)
  with example_uri show ?thesis by (simp add: NewCriterionRule_def)
qed

section \<open>Evaluation of the emitted statements\<close>

lemma concat_map_concat:
  "concat (map f (concat xss)) = concat (map (\<lambda>xs. concat (map f xs)) xss)"
  by (induction xss) simp_all

lemma run_append: "run B s (xs @ ys) = concat (map (\<lambda>s'. run B s' ys) (run B s xs))"
  by (induction xs arbitrary: s) (simp_all add: concat_map_concat comp_def)

lemma evals_strings: "evals B s (map ast_String vs) = [(map RString vs, s)]"
  by (induction vs) simp_all

lemma eval_keeps:
  "(v, s') \<in> set (eval B s t) \<Longrightarrow> map_of s x = Some y \<Longrightarrow> map_of s' x = Some y"
  "(vs, s') \<in> set (evals B s ts) \<Longrightarrow> map_of s x = Some y \<Longrightarrow> map_of s' x = Some y"
  "(r, s') \<in> set (walk B s v0 ps) \<Longrightarrow> map_of s x = Some y \<Longrightarrow> map_of s' x = Some y"
proof (induction B s t and B s ts and B s v0 ps arbitrary: v s' and vs s' and r s'
    rule: eval_evals_walk.induct)
  case (10 B s v p ps)
  note prems = "10.prems"
  show ?case
  proof (cases p)
    case (ast_Var x1)
    show ?thesis
    proof (cases "x1 = ''_''")
      case True
      with "10.IH"(1) [OF ast_Var True] prems ast_Var show ?thesis
        by auto
    next
      case False
      show ?thesis
      proof (cases "map_of s x1")
        case None
        with prems have "x \<noteq> x1" by auto
        with "10.IH"(2) [OF ast_Var False None] prems ast_Var False None show ?thesis
          by auto
      next
        case (Some k)
        with "10.IH"(3) [OF ast_Var False Some] prems ast_Var False show ?thesis
          by auto
      qed
    qed
  next
    case (ast_String x2)
    with "10.IH"(4,5) [OF ast_String] prems show ?thesis by fastforce
  next
    case (ast_Number x3)
    with "10.IH"(6,7) [OF ast_Number] prems show ?thesis by fastforce
  next
    case (ast_Array x4)
    with "10.IH"(8,9) [OF ast_Array] prems show ?thesis by fastforce
  next
    case (ast_Ref x51 x52)
    with "10.IH"(10,11) [OF ast_Ref] prems show ?thesis by fastforce
  next
    case (ast_Call x61 x62)
    with "10.IH"(12,13) [OF ast_Call] prems show ?thesis by fastforce
  qed
qed (auto split: if_splits option.splits)

lemma concat_map_Nil: "(\<And>x. x \<in> set xs \<Longrightarrow> f x = []) \<Longrightarrow> concat (map f xs) = []"
  by (induction xs) simp_all

lemma wildcard_names:
  "suffix ''[_]'' ''allowed_fingerprints[_]''"
  "suffix ''[_]'' ''allowed_spki_hashes[_]''"
  "suffix ''[_]'' ''allowed_san_emails[_]''"
  "suffix ''[_]'' ''allowed_san_dns_names[_]''"
  "suffix ''[_]'' ''allowed_san_ip_addresses[_]''"
  "suffix ''[_]'' ''san_email_addresses[_]''"
  "suffix ''[_]'' ''san_dns_names[_]''"
  "suffix ''[_]'' ''san_ip_addresses[_]''"
  "\<not> suffix ''[_]'' ''fingerprint''"
  "\<not> suffix ''[_]'' ''spki_hash''"
  "\<not> suffix ''[_]'' ''san_uris''"
  "\<not> suffix ''[_]'' ''allowed_san_uris''"
  by code_simp+

lemma exec_Equality_Nil:
  "(\<And>va s'. (va, s') \<in> set (eval B s a) \<Longrightarrow> eval B s' b = []) \<Longrightarrow>
     exec B s (Equality a b) = []"
  unfolding exec.simps by (rule concat_map_Nil) auto

lemma empty_allow_list_others:
  "k \<in> set condition_keys \<Longrightarrow> k \<noteq> ''uri'' \<Longrightarrow> run B s (fragment k []) = []"
  by (auto simp: condition_keys_def fragment_def wildcard_names split: option.splits)

lemma empty_allow_list_uri: "run B s (fragment ''uri'' []) = []"
proof -
  let ?s2 = "(''allowed_san_uris'', RArray []) # filter (\<lambda>xv. fst xv \<notin> set [''san_uri_index'']) s"
  let ?a = "ast_Call ''sprintf''
         [ast_String ''%s://%s%s'',
          ast_Array
            [ast_Ref (ast_Var ''san_uris'') [ast_Var ''san_uri_index'', ast_String ''Scheme''],
             ast_Ref (ast_Var ''san_uris'') [ast_Var ''san_uri_index'', ast_String ''Host''],
             ast_Ref (ast_Var ''san_uris'') [ast_Var ''san_uri_index'', ast_String ''Path'']]]"
  have b: "eval B s' (ast_Ref (ast_Var ''allowed_san_uris'') [ast_Var ''_'']) = []"
    if "(va, s') \<in> set (eval B ?s2 ?a)" for va s'
  proof -
    have "map_of ?s2 ''allowed_san_uris'' = Some (RArray [])" by simp
    with that have "map_of s' ''allowed_san_uris'' = Some (RArray [])"
      by (rule eval_keeps(1))
    then show ?thesis by (simp add: wildcard_names)
  qed
  have e3: "exec B ?s2 (Equality ?a (ast_Ref (ast_Var ''allowed_san_uris'') [ast_Var ''_''])) = []"
    using b by (rule exec_Equality_Nil)
  have e1: "exec B s (Assign (ast_Var ''allowed_san_uris'') (ast_Array []))
      = [(''allowed_san_uris'', RArray []) # s]"
    by simp
  have e2: "exec B ((''allowed_san_uris'', RArray []) # s) (SomeDecl [''san_uri_index'']) = [?s2]"
    by simp
  have f: "fragment ''uri'' [] = Assign (ast_Var ''allowed_san_uris'') (ast_Array []) # uriCheckBody"
    by (simp add: fragment_def)
  show ?thesis
    by (simp only: f uriCheckBody_def run.simps e1 e2 e3 list.map concat.simps append.simps)
qed

lemma empty_allow_list:
  "k \<in> set condition_keys \<Longrightarrow> run B s (fragment k []) = []"
  using empty_allow_list_others [of k B s] empty_allow_list_uri [of B s] by blast

lemma empty_allow_list_body:
  "k \<in> set condition_keys \<Longrightarrow> run B s (body @ fragment k [] @ rest) = []"
  by (simp add: run_append empty_allow_list concat_map_Nil)

lemma indexed_map: "indexed n (map f xs) = map (\<lambda>kx. (fst kx, f (snd kx))) (indexed n xs)"
  by (induction xs arbitrary: n) simp_all

lemma indexed_snd: "map snd (indexed n xs) = xs"
  by (induction xs arbitrary: n) simp_all

lemma indexed_key: "(k, x) \<in> set (indexed n xs) \<Longrightarrow> \<exists>m. k = RNumber m \<and> n \<le> m"
  by (induction xs arbitrary: n) (auto, fastforce)

lemma indexed_select:
  "(k, x) \<in> set (indexed n xs) \<Longrightarrow> map snd (filter (\<lambda>kc. fst kc = k) (indexed n xs)) = [x]"
proof (induction xs arbitrary: n)
  case Nil
  then show ?case by simp
next
  case (Cons y ys)
  show ?case
  proof (cases "k = RNumber n")
    case True
    have "filter (\<lambda>kc. fst kc = RNumber n) (indexed (Suc n) ys) = []"
      by (auto simp: filter_empty_conv dest: indexed_key)
    moreover from Cons.prems True have "x = y"
      by (auto dest: indexed_key)
    ultimately show ?thesis using True by simp
  next
    case False
    with Cons show ?thesis by auto
  qed
qed

lemma select_uri_fields:
  "select (uri_value u) (RString ''Scheme'') = [RString (Scheme u)]"
  "select (uri_value u) (RString ''Host'') = [RString (Host u)]"
  "select (uri_value u) (RString ''Path'') = [RString (Path u)]"
  by (simp_all add: select_def uri_value_def)

lemma walk_field: "walk B s c [ast_String f] = map (\<lambda>c'. (c', s)) (select c (RString f))"
  by (simp add: comp_def)

lemma concat_map_single: "concat (map (\<lambda>x. [f x]) xs) = map f xs"
  by (induction xs) simp_all

lemma map_of_filter_out:
  "map_of (filter (\<lambda>xv. fst xv \<noteq> i) s) x = (if x = i then None else map_of s x)"
  by (induction s) auto

lemma select_array:
  assumes "(k, u) \<in> set (indexed 0 us)"
  shows "select (RArray (map f us)) k = [f u]"
proof -
  from assms have "(k, f u) \<in> set (indexed 0 (map f us))"
    by (force simp: indexed_map)
  from indexed_select [OF this] show ?thesis
    by (simp add: select_def)
qed

lemma eval_ref_var:
  "\<not> suffix ''[_]'' x \<Longrightarrow> map_of s x = Some v \<Longrightarrow>
     eval B s (ast_Ref (ast_Var x) ps) = walk B s v ps"
  by simp

lemma walk_unbound:
  "i \<noteq> ''_'' \<Longrightarrow> map_of s i = None \<Longrightarrow>
     walk B s v (ast_Var i # ps) = concat (map (\<lambda>kc. walk B ((i, fst kc) # s) (snd kc) ps) (children v))"
  by (simp add: case_prod_unfold)

lemma walk_bound:
  "i \<noteq> ''_'' \<Longrightarrow> map_of s i = Some k \<Longrightarrow>
     walk B s v (ast_Var i # ps) = concat (map (\<lambda>c. walk B s c ps) (select v k))"
  by simp

lemma walk_wildcard:
  "walk B s v [ast_Var ''_''] = map (\<lambda>kc. (snd kc, s)) (children v)"
  by (simp add: case_prod_unfold concat_map_single)

lemma ref_unbound_index:
  assumes "\<not> suffix ''[_]'' x" and "map_of s x = Some (RArray (map f us))"
    and "i \<noteq> ''_''" and "map_of s i = None"
  shows "eval B s (ast_Ref (ast_Var x) [ast_Var i, ast_String fld])
    = concat (map (\<lambda>ku. map (\<lambda>c. (c, (i, fst ku) # s)) (select (f (snd ku)) (RString fld)))
        (indexed 0 us))"
  unfolding eval_ref_var [OF assms(1,2)] walk_unbound [OF assms(3,4)] walk_field
  by (simp add: indexed_map comp_def)

lemma ref_bound_index:
  assumes "\<not> suffix ''[_]'' x" and "map_of s x = Some (RArray (map f us))"
    and "i \<noteq> ''_''" and "map_of s i = Some k" and "(k, u) \<in> set (indexed 0 us)"
  shows "eval B s (ast_Ref (ast_Var x) [ast_Var i, ast_String fld])
    = map (\<lambda>c. (c, s)) (select (f u) (RString fld))"
  unfolding eval_ref_var [OF assms(1,2)] walk_bound [OF assms(3,4)] walk_field
    select_array [OF assms(5)]
  by simp

lemma sprintf_uri:
  "sprintf ''%s://%s%s'' [RString a, RString b, RString c] = Some (a @ ''://'' @ b @ c)"
  by simp

lemma evals_one: "evals B s [t] = map (\<lambda>vs. ([fst vs], snd vs)) (eval B s t)"
  by (simp add: case_prod_unfold concat_map_single)

lemma evals_first_single:
  "eval B s t = [(v, s')] \<Longrightarrow>
     evals B s (t # ts) = map (\<lambda>vs. (v # fst vs, snd vs)) (evals B s' ts)"
  by (simp add: case_prod_unfold)

lemma evals_first_map:
  "eval B s t = map g xs \<Longrightarrow>
     evals B s (t # ts)
       = concat (map (\<lambda>x. map (\<lambda>vs. (fst (g x) # fst vs, snd vs)) (evals B (snd (g x)) ts)) xs)"
  by (simp add: case_prod_unfold comp_def)

lemma eval_Array_map:
  "evals B s ts = map g xs \<Longrightarrow>
     eval B s (ast_Array ts) = map (\<lambda>x. (RArray (fst (g x)), snd (g x))) xs"
  by (simp add: case_prod_unfold comp_def)

lemma eval_sprintf_map:
  assumes "evals B s ts = map g xs"
    and "\<And>x. x \<in> set xs \<Longrightarrow> call_builtin B ''sprintf'' (fst (g x)) = Some (h x)"
  shows "eval B s (ast_Call ''sprintf'' ts) = map (\<lambda>x. (h x, snd (g x))) xs"
proof -
  have "eval B s (ast_Call ''sprintf'' ts)
      = concat (map (\<lambda>x. case call_builtin B ''sprintf'' (fst (g x)) of
          None \<Rightarrow> [] | Some v \<Rightarrow> [(v, snd (g x))]) xs)"
    by (simp add: assms(1) case_prod_unfold comp_def)
  also have "\<dots> = concat (map (\<lambda>x. [(h x, snd (g x))]) xs)"
    by (rule arg_cong [where f = concat], rule map_cong [OF refl]) (simp add: assms(2))
  finally show ?thesis by (simp add: concat_map_single)
qed

lemma uri_refs:
  assumes x: "map_of s ''san_uris'' = Some (RArray (map uri_value us))"
    and i: "map_of s ''san_uri_index'' = None"
  shows "evals B s
      [ast_Ref (ast_Var ''san_uris'') [ast_Var ''san_uri_index'', ast_String ''Scheme''],
       ast_Ref (ast_Var ''san_uris'') [ast_Var ''san_uri_index'', ast_String ''Host''],
       ast_Ref (ast_Var ''san_uris'') [ast_Var ''san_uri_index'', ast_String ''Path'']]
    = map (\<lambda>ku. ([RString (Scheme (snd ku)), RString (Host (snd ku)), RString (Path (snd ku))],
                  (''san_uri_index'', fst ku) # s))
        (indexed 0 us)"
proof -
  have n: "\<not> suffix ''[_]'' ''san_uris''" "''san_uri_index'' \<noteq> ''_''"
    by (simp_all add: wildcard_names)
  have 1: "eval B s
      (ast_Ref (ast_Var ''san_uris'') [ast_Var ''san_uri_index'', ast_String ''Scheme''])
    = map (\<lambda>ku. (RString (Scheme (snd ku)), (''san_uri_index'', fst ku) # s)) (indexed 0 us)"
    unfolding ref_unbound_index [OF n(1) x n(2) i]
    by (simp add: select_uri_fields concat_map_single)
  have 2: "evals B ((''san_uri_index'', fst ku) # s)
      [ast_Ref (ast_Var ''san_uris'') [ast_Var ''san_uri_index'', ast_String ''Host''],
       ast_Ref (ast_Var ''san_uris'') [ast_Var ''san_uri_index'', ast_String ''Path'']]
    = [([RString (Host (snd ku)), RString (Path (snd ku))], (''san_uri_index'', fst ku) # s)]"
    if "ku \<in> set (indexed 0 us)" for ku
  proof -
    let ?s = "(''san_uri_index'', fst ku) # s"
    have x': "map_of ?s ''san_uris'' = Some (RArray (map uri_value us))"
      using x by simp
    have i': "map_of ?s ''san_uri_index'' = Some (fst ku)"
      by simp
    from that have m: "(fst ku, snd ku) \<in> set (indexed 0 us)"
      by simp
    note r = ref_bound_index [OF n(1) x' n(2) i' m]
    have h: "eval B ?s
        (ast_Ref (ast_Var ''san_uris'') [ast_Var ''san_uri_index'', ast_String ''Host''])
      = [(RString (Host (snd ku)), ?s)]"
      unfolding r by (simp add: select_uri_fields)
    have p: "evals B ?s
        [ast_Ref (ast_Var ''san_uris'') [ast_Var ''san_uri_index'', ast_String ''Path'']]
      = [([RString (Path (snd ku))], ?s)]"
      unfolding evals_one r by (simp add: select_uri_fields)
    show ?thesis
      unfolding evals_first_single [OF h] p by simp
  qed
  have "evals B s
      [ast_Ref (ast_Var ''san_uris'') [ast_Var ''san_uri_index'', ast_String ''Scheme''],
       ast_Ref (ast_Var ''san_uris'') [ast_Var ''san_uri_index'', ast_String ''Host''],
       ast_Ref (ast_Var ''san_uris'') [ast_Var ''san_uri_index'', ast_String ''Path'']]
    = concat (map (\<lambda>ku. map (\<lambda>vs. (RString (Scheme (snd ku)) # fst vs, snd vs))
        (evals B ((''san_uri_index'', fst ku) # s)
          [ast_Ref (ast_Var ''san_uris'') [ast_Var ''san_uri_index'', ast_String ''Host''],
           ast_Ref (ast_Var ''san_uris'') [ast_Var ''san_uri_index'', ast_String ''Path'']]))
        (indexed 0 us))"
    unfolding evals_first_map [OF 1] by (simp only: fst_conv snd_conv)
  also have "\<dots> = concat (map (\<lambda>ku.
        [([RString (Scheme (snd ku)), RString (Host (snd ku)), RString (Path (snd ku))],
          (''san_uri_index'', fst ku) # s)]) (indexed 0 us))"
    by (rule arg_cong [where f = concat], rule map_cong [OF refl])
      (simp add: 2 del: evals.simps eval.simps)
  finally show ?thesis by (simp only: concat_map_single)
qed

lemma uri_sprintf:
  assumes x: "map_of s ''san_uris'' = Some (RArray (map uri_value us))"
    and i: "map_of s ''san_uri_index'' = None"
  shows "eval B s
      (ast_Call ''sprintf''
         [ast_String ''%s://%s%s'',
          ast_Array
            [ast_Ref (ast_Var ''san_uris'') [ast_Var ''san_uri_index'', ast_String ''Scheme''],
             ast_Ref (ast_Var ''san_uris'') [ast_Var ''san_uri_index'', ast_String ''Host''],
             ast_Ref (ast_Var ''san_uris'') [ast_Var ''san_uri_index'', ast_String ''Path'']]])
    = map (\<lambda>ku. (RString (reconstructed (snd ku)), (''san_uri_index'', fst ku) # s))
        (indexed 0 us)"
proof -
  note a = eval_Array_map [OF uri_refs [OF x i, of B], unfolded fst_conv snd_conv]
  have f: "eval B s (ast_String ''%s://%s%s'') = [(RString ''%s://%s%s'', s)]"
    by simp
  have e: "evals B s
      [ast_String ''%s://%s%s'',
       ast_Array
        [ast_Ref (ast_Var ''san_uris'') [ast_Var ''san_uri_index'', ast_String ''Scheme''],
         ast_Ref (ast_Var ''san_uris'') [ast_Var ''san_uri_index'', ast_String ''Host''],
         ast_Ref (ast_Var ''san_uris'') [ast_Var ''san_uri_index'', ast_String ''Path'']]]
    = map (\<lambda>ku.
        ([RString ''%s://%s%s'',
          RArray [RString (Scheme (snd ku)), RString (Host (snd ku)), RString (Path (snd ku))]],
         (''san_uri_index'', fst ku) # s))
        (indexed 0 us)"
    unfolding evals_first_single [OF f] evals_one a by (simp add: comp_def)
  show ?thesis
    by (rule eval_sprintf_map [OF e, unfolded fst_conv snd_conv])
      (simp add: call_builtin_def reconstructed_def)
qed

lemma concat_map_nonempty: "(concat (map f xs) \<noteq> []) = (\<exists>x \<in> set xs. f x \<noteq> [])"
  by (induction xs) auto

lemma exec_Equality_map:
  assumes "eval B s a = map g xs"
    and "\<And>x. x \<in> set xs \<Longrightarrow> eval B (snd (g x)) b = map (\<lambda>v. (h v, snd (g x))) vs"
  shows "exec B s (Equality a b)
    = concat (map (\<lambda>x. concat (map (\<lambda>v. if fst (g x) = h v then [snd (g x)] else []) vs)) xs)"
proof -
  have "exec B s (Equality a b)
      = concat (map (\<lambda>x. concat (map (\<lambda>vs. if fst (g x) = fst vs then [snd vs] else [])
          (eval B (snd (g x)) b))) xs)"
    by (simp add: assms(1) case_prod_unfold comp_def)
  also have "\<dots> = concat (map (\<lambda>x. concat (map (\<lambda>v. if fst (g x) = h v then [snd (g x)] else []) vs)) xs)"
    by (rule arg_cong [where f = concat], rule map_cong [OF refl])
      (simp add: assms(2) comp_def cong: if_cong)
  finally show ?thesis .
qed

lemma allow_list_elements:
  assumes "map_of s ''allowed_san_uris'' = Some (RArray (map RString vs))"
  shows "eval B s (ast_Ref (ast_Var ''allowed_san_uris'') [ast_Var ''_''])
    = map (\<lambda>v. (RString v, s)) vs"
proof -
  have "map (\<lambda>kc. (snd kc, s)) (indexed 0 (map RString vs))
      = map (\<lambda>x. (x, s)) (map snd (indexed 0 (map RString vs)))"
    by (simp add: comp_def)
  then show ?thesis
    unfolding eval_ref_var [OF wildcard_names(12) assms] walk_wildcard
    by (simp add: indexed_snd comp_def)
qed

lemma indexed_set: "snd ` set (indexed n xs) = set xs"
  using indexed_snd [of n xs] by (metis set_map)

lemma uri_fragment_satisfied:
  assumes x: "map_of s ''san_uris'' = Some (RArray (map uri_value us))"
  shows "satisfied B s (fragment ''uri'' (map ast_String vs))
    = (\<exists>u \<in> set us. reconstructed u \<in> set vs)"
proof -
  let ?s1 = "(''allowed_san_uris'', RArray (map RString vs)) # s"
  let ?s2 = "(''allowed_san_uris'', RArray (map RString vs))
    # filter (\<lambda>xv. fst xv \<notin> set [''san_uri_index'']) s"
  let ?a = "ast_Call ''sprintf''
         [ast_String ''%s://%s%s'',
          ast_Array
            [ast_Ref (ast_Var ''san_uris'') [ast_Var ''san_uri_index'', ast_String ''Scheme''],
             ast_Ref (ast_Var ''san_uris'') [ast_Var ''san_uri_index'', ast_String ''Host''],
             ast_Ref (ast_Var ''san_uris'') [ast_Var ''san_uri_index'', ast_String ''Path'']]]"
  let ?b = "ast_Ref (ast_Var ''allowed_san_uris'') [ast_Var ''_'']"
  have f: "fragment ''uri'' (map ast_String vs)
      = [Assign (ast_Var ''allowed_san_uris'') (ast_Array (map ast_String vs)),
         SomeDecl [''san_uri_index''], Equality ?a ?b]"
    by (simp add: fragment_def uriCheckBody_def)
  have e1: "exec B s (Assign (ast_Var ''allowed_san_uris'') (ast_Array (map ast_String vs))) = [?s1]"
    by (simp add: evals_strings)
  have e2: "exec B ?s1 (SomeDecl [''san_uri_index'']) = [?s2]"
    by simp
  have m: "map_of ?s2 ''san_uris'' = Some (RArray (map uri_value us))"
    "map_of ?s2 ''san_uri_index'' = None"
    using x by (simp_all add: map_of_filter_out)
  note a = uri_sprintf [OF m, of B]
  have b: "eval B (snd (RString (reconstructed (snd ku)), (''san_uri_index'', fst ku) # ?s2)) ?b
      = map (\<lambda>v. (RString v, snd (RString (reconstructed (snd ku)), (''san_uri_index'', fst ku) # ?s2))) vs"
    for ku
    by (rule allow_list_elements) simp
  note e3 = exec_Equality_map [where h = RString, OF a b, unfolded fst_conv snd_conv]
  have r: "run B s (fragment ''uri'' (map ast_String vs)) = exec B ?s2 (Equality ?a ?b)"
    by (simp only: f run.simps e1 e2 list.map concat.simps append.simps append_Nil2
        concat_map_single list.map_ident)
  have "satisfied B s (fragment ''uri'' (map ast_String vs))
      = (\<exists>ku \<in> set (indexed 0 us). \<exists>v \<in> set vs. reconstructed (snd ku) = v)"
    unfolding satisfied_def r e3 concat_map_nonempty by (auto split: if_splits)
  also have "\<dots> = (\<exists>u \<in> snd ` set (indexed 0 us). reconstructed u \<in> set vs)"
    by auto
  finally show ?thesis by (simp only: indexed_set)
qed

section \<open>An empty sequence as the value of a condition\<close>

lemma fragment_keys:
  "fragment ''fingerprint'' ra =
     [Assign (ast_Var ''allowed_fingerprints'') (ast_Array ra),
      Equal (ast_Var ''fingerprint'') (ast_Var ''allowed_fingerprints[_]'')]"
  "fragment ''spki_hash'' ra =
     [Assign (ast_Var ''allowed_spki_hashes'') (ast_Array ra),
      Equal (ast_Var ''spki_hash'') (ast_Var ''allowed_spki_hashes[_]'')]"
  "fragment ''email'' ra =
     [Assign (ast_Var ''allowed_san_emails'') (ast_Array ra),
      Equal (ast_Var ''allowed_san_emails[_]'') (ast_Var ''san_email_addresses[_]'')]"
  "fragment ''dns'' ra =
     [Assign (ast_Var ''allowed_san_dns_names'') (ast_Array ra),
      Equal (ast_Var ''allowed_san_dns_names[_]'') (ast_Var ''san_dns_names[_]'')]"
  "fragment ''ip'' ra =
     [Assign (ast_Var ''allowed_san_ip_addresses'') (ast_Array ra),
      Equal (ast_Var ''allowed_san_ip_addresses[_]'') (ast_Var ''san_ip_addresses[_]'')]"
  "fragment ''uri'' ra = Assign (ast_Var ''allowed_san_uris'') (ast_Array ra) # uriCheckBody"
  by (simp_all add: fragment_def)

lemma condition_keys_mem:
  "''fingerprint'' \<in> set condition_keys" "''spki_hash'' \<in> set condition_keys"
  "''email'' \<in> set condition_keys" "''dns'' \<in> set condition_keys"
  "''ip'' \<in> set condition_keys" "''uri'' \<in> set condition_keys"
  by (simp_all add: condition_keys_def)

text \<open>
  C9. For each of the six conditions the empty sequence is not an error: the builder
  appends the assignment of the empty sequence to the allow-list variable and then its
  usual constraint. Under the engine's reading no bindings satisfy these statements,
  whatever statements stand before and after them and whatever the built-in functions do:
  the wildcard index of the allow-list has no element to stand for. The condition denies
  every request.
\<close>

theorem empty_sequence_always_denies:
  "addCertFingerprintCondition L body (parser_Array [])
     = Inr (body @
         [Assign (ast_Var ''allowed_fingerprints'') (ast_Array []),
          Equal (ast_Var ''fingerprint'') (ast_Var ''allowed_fingerprints[_]'')])
   \<and> \<not> satisfied B s (before @
         [Assign (ast_Var ''allowed_fingerprints'') (ast_Array []),
          Equal (ast_Var ''fingerprint'') (ast_Var ''allowed_fingerprints[_]'')] @ rest)
   \<and> addCertSPKIHashCondition L body (parser_Array [])
     = Inr (body @
         [Assign (ast_Var ''allowed_spki_hashes'') (ast_Array []),
          Equal (ast_Var ''spki_hash'') (ast_Var ''allowed_spki_hashes[_]'')])
   \<and> \<not> satisfied B s (before @
         [Assign (ast_Var ''allowed_spki_hashes'') (ast_Array []),
          Equal (ast_Var ''spki_hash'') (ast_Var ''allowed_spki_hashes[_]'')] @ rest)
   \<and> addSanEmailCondition L body (parser_Array [])
     = Inr (body @
         [Assign (ast_Var ''allowed_san_emails'') (ast_Array []),
          Equal (ast_Var ''allowed_san_emails[_]'') (ast_Var ''san_email_addresses[_]'')])
   \<and> \<not> satisfied B s (before @
         [Assign (ast_Var ''allowed_san_emails'') (ast_Array []),
          Equal (ast_Var ''allowed_san_emails[_]'') (ast_Var ''san_email_addresses[_]'')] @ rest)
   \<and> addSanDNSCondition L body (parser_Array [])
     = Inr (body @
         [Assign (ast_Var ''allowed_san_dns_names'') (ast_Array []),
          Equal (ast_Var ''allowed_san_dns_names[_]'') (ast_Var ''san_dns_names[_]'')])
   \<and> \<not> satisfied B s (before @
         [Assign (ast_Var ''allowed_san_dns_names'') (ast_Array []),
          Equal (ast_Var ''allowed_san_dns_names[_]'') (ast_Var ''san_dns_names[_]'')] @ rest)
   \<and> addSanIPCondition L body (parser_Array [])
     = Inr (body @
         [Assign (ast_Var ''allowed_san_ip_addresses'') (ast_Array []),
          Equal (ast_Var ''allowed_san_ip_addresses[_]'') (ast_Var ''san_ip_addresses[_]'')])
   \<and> \<not> satisfied B s (before @
         [Assign (ast_Var ''allowed_san_ip_addresses'') (ast_Array []),
          Equal (ast_Var ''allowed_san_ip_addresses[_]'') (ast_Var ''san_ip_addresses[_]'')] @ rest)
   \<and> addSanURICondition L body (parser_Array [])
     = Inr (body @ Assign (ast_Var ''allowed_san_uris'') (ast_Array []) # uriCheckBody)
   \<and> \<not> satisfied B s (before @
         (Assign (ast_Var ''allowed_san_uris'') (ast_Array []) # uriCheckBody) @ rest)"
proof -
  have b: "addCertFingerprintCondition L body (parser_Array [])
     = Inr (body @
         [Assign (ast_Var ''allowed_fingerprints'') (ast_Array []),
          Equal (ast_Var ''fingerprint'') (ast_Var ''allowed_fingerprints[_]'')])"
    "addCertSPKIHashCondition L body (parser_Array [])
     = Inr (body @
         [Assign (ast_Var ''allowed_spki_hashes'') (ast_Array []),
          Equal (ast_Var ''spki_hash'') (ast_Var ''allowed_spki_hashes[_]'')])"
    "addSanEmailCondition L body (parser_Array [])
     = Inr (body @
         [Assign (ast_Var ''allowed_san_emails'') (ast_Array []),
          Equal (ast_Var ''allowed_san_emails[_]'') (ast_Var ''san_email_addresses[_]'')])"
    "addSanDNSCondition L body (parser_Array [])
     = Inr (body @
         [Assign (ast_Var ''allowed_san_dns_names'') (ast_Array []),
          Equal (ast_Var ''allowed_san_dns_names[_]'') (ast_Var ''san_dns_names[_]'')])"
    "addSanIPCondition L body (parser_Array [])
     = Inr (body @
         [Assign (ast_Var ''allowed_san_ip_addresses'') (ast_Array []),
          Equal (ast_Var ''allowed_san_ip_addresses[_]'') (ast_Var ''san_ip_addresses[_]'')])"
    "addSanURICondition L body (parser_Array [])
     = Inr (body @ Assign (ast_Var ''allowed_san_uris'') (ast_Array []) # uriCheckBody)"
    by (simp_all add: addCertFingerprintCondition_def addCertSPKIHashCondition_def
        addSanEmailCondition_def addSanDNSCondition_def addSanIPCondition_def
        addSanURICondition_def)
  note u = condition_keys_mem [THEN empty_allow_list_body, of B s before rest,
      unfolded fragment_keys]
  from b u show ?thesis
    unfolding satisfied_def by (simp only: not_not simp_thms)
qed

lemma example_dns_satisfied:
  "satisfied (\<lambda>f args. None) [(''san_dns_names'', RArray [RString ''a.example.com''])]
     [Assign (ast_Var ''allowed_san_dns_names'') (ast_Array [ast_String ''a.example.com'']),
      Equal (ast_Var ''allowed_san_dns_names[_]'') (ast_Var ''san_dns_names[_]'')]"
  by (simp add: satisfied_def wildcard_names)

text \<open>
  An example: bindings that satisfy the statements of a \<^verbatim>\<open>dns\<close> condition with one
  allowed name do not satisfy those of the empty sequence.
\<close>

theorem empty_sequence_always_denies_witness:
  "addSanDNSCondition example_lib clientCertificateBaseBody (parser_Array [])
     = Inr (clientCertificateBaseBody @
         [Assign (ast_Var ''allowed_san_dns_names'') (ast_Array []),
          Equal (ast_Var ''allowed_san_dns_names[_]'') (ast_Var ''san_dns_names[_]'')])
   \<and> \<not> satisfied (\<lambda>f args. None) [(''san_dns_names'', RArray [RString ''a.example.com''])]
        ([] @
         [Assign (ast_Var ''allowed_san_dns_names'') (ast_Array []),
          Equal (ast_Var ''allowed_san_dns_names[_]'') (ast_Var ''san_dns_names[_]'')] @ [])
   \<and> satisfied (\<lambda>f args. None) [(''san_dns_names'', RArray [RString ''a.example.com''])]
        [Assign (ast_Var ''allowed_san_dns_names'') (ast_Array [ast_String ''a.example.com'']),
         Equal (ast_Var ''allowed_san_dns_names[_]'') (ast_Var ''san_dns_names[_]'')]"
  using empty_sequence_always_denies
    [of example_lib clientCertificateBaseBody "\<lambda>f args. None"
      "[(''san_dns_names'', RArray [RString ''a.example.com''])]" "[]" "[]"]
    example_dns_satisfied
  by blast

section \<open>The URI condition\<close>

lemma sanURI_map_ok:
  "list_all (url_Parse L) vs \<Longrightarrow>
     range_elements (sanURIElement L) ra (map parser_String vs) = Inr (ra @ map ast_String vs)"
  by (induction vs arbitrary: ra) (simp_all add: sanURIElement_def)

text \<open>
  C2. For configured strings that \<^verbatim>\<open>url.Parse\<close> accepts, the \<^verbatim>\<open>uri\<close> builder binds
  \<^verbatim>\<open>allowed_san_uris\<close> to exactly these strings, as they are, and appends the
  declaration of \<^verbatim>\<open>san_uri_index\<close> and the comparison of
  \<^verbatim>\<open>sprintf("%s://%s%s", [Scheme, Host, Path])\<close> of the SAN URI at that index with
  \<^verbatim>\<open>allowed_san_uris[_]\<close>. Under the engine's reading, with \<^verbatim>\<open>san_uris\<close> bound to
  the SAN URIs of the certificate, these statements are satisfied exactly when for some SAN
  URI the text of its scheme, \<^verbatim>\<open>://\<close>, its host and its path is equal to some
  configured string. The query and the fragment of the SAN URI take no part, and the
  configured string is compared as it is.
\<close>

theorem addSanURICondition_reconstructs:
  "(list_all (url_Parse L) vs \<longrightarrow>
      addSanURICondition L body (parser_Array (map parser_String vs))
        = Inr (body @
            [Assign (ast_Var ''allowed_san_uris'') (ast_Array (map ast_String vs)),
             SomeDecl [''san_uri_index''],
             Equality
               (ast_Call ''sprintf''
                 [ast_String ''%s://%s%s'',
                  ast_Array
                    [ast_Ref (ast_Var ''san_uris'') [ast_Var ''san_uri_index'', ast_String ''Scheme''],
                     ast_Ref (ast_Var ''san_uris'') [ast_Var ''san_uri_index'', ast_String ''Host''],
                     ast_Ref (ast_Var ''san_uris'') [ast_Var ''san_uri_index'', ast_String ''Path'']]])
               (ast_Ref (ast_Var ''allowed_san_uris'') [ast_Var ''_''])]))
   \<and> (map_of s ''san_uris'' = Some (RArray (map uri_value us)) \<longrightarrow>
        satisfied B s
          [Assign (ast_Var ''allowed_san_uris'') (ast_Array (map ast_String vs)),
           SomeDecl [''san_uri_index''],
           Equality
             (ast_Call ''sprintf''
               [ast_String ''%s://%s%s'',
                ast_Array
                  [ast_Ref (ast_Var ''san_uris'') [ast_Var ''san_uri_index'', ast_String ''Scheme''],
                   ast_Ref (ast_Var ''san_uris'') [ast_Var ''san_uri_index'', ast_String ''Host''],
                   ast_Ref (ast_Var ''san_uris'') [ast_Var ''san_uri_index'', ast_String ''Path'']]])
             (ast_Ref (ast_Var ''allowed_san_uris'') [ast_Var ''_''])]
          = (\<exists>u \<in> set us. Scheme u @ ''://'' @ Host u @ Path u \<in> set vs))"
proof -
  have 1: "addSanURICondition L body (parser_Array (map parser_String vs))
      = Inr (body @ fragment ''uri'' (map ast_String vs))"
    if "list_all (url_Parse L) vs"
    using sanURI_map_ok [OF that, of "[]"]
    by (simp add: addSanURICondition_def fragment_keys)
  have 2: "satisfied B s (fragment ''uri'' (map ast_String vs))
      = (\<exists>u \<in> set us. Scheme u @ ''://'' @ Host u @ Path u \<in> set vs)"
    if "map_of s ''san_uris'' = Some (RArray (map uri_value us))"
    using uri_fragment_satisfied [OF that, of B vs] by (simp add: reconstructed_def)
  have f: "fragment ''uri'' (map ast_String vs)
      = [Assign (ast_Var ''allowed_san_uris'') (ast_Array (map ast_String vs)),
         SomeDecl [''san_uri_index''],
         Equality
           (ast_Call ''sprintf''
             [ast_String ''%s://%s%s'',
              ast_Array
                [ast_Ref (ast_Var ''san_uris'') [ast_Var ''san_uri_index'', ast_String ''Scheme''],
                 ast_Ref (ast_Var ''san_uris'') [ast_Var ''san_uri_index'', ast_String ''Host''],
                 ast_Ref (ast_Var ''san_uris'') [ast_Var ''san_uri_index'', ast_String ''Path'']]])
           (ast_Ref (ast_Var ''allowed_san_uris'') [ast_Var ''_''])]"
    by (simp add: fragment_keys uriCheckBody_def)
  from 1 2 show ?thesis unfolding f by blast
qed

theorem addSanURICondition_reconstructs_witness:
  "list_all (url_Parse example_lib) [''spiffe://cluster/ns/default/sa/foo'']
   \<and> addSanURICondition example_lib clientCertificateBaseBody
        (parser_Array (map parser_String [''spiffe://cluster/ns/default/sa/foo'']))
       = Inr (clientCertificateBaseBody @
           Assign (ast_Var ''allowed_san_uris'')
             (ast_Array (map ast_String [''spiffe://cluster/ns/default/sa/foo'']))
           # uriCheckBody)
   \<and> map_of
        [(''san_uris'',
          RArray (map uri_value
            [\<lparr>Scheme = ''spiffe'', Host = ''cluster'', Path = ''/ns/default/sa/foo'',
              RawQuery = ''x=1'', Fragment = ''frag''\<rparr>]))]
        ''san_uris''
       = Some (RArray (map uri_value
            [\<lparr>Scheme = ''spiffe'', Host = ''cluster'', Path = ''/ns/default/sa/foo'',
              RawQuery = ''x=1'', Fragment = ''frag''\<rparr>]))
   \<and> satisfied (\<lambda>f args. None)
        [(''san_uris'',
          RArray (map uri_value
            [\<lparr>Scheme = ''spiffe'', Host = ''cluster'', Path = ''/ns/default/sa/foo'',
              RawQuery = ''x=1'', Fragment = ''frag''\<rparr>]))]
        (Assign (ast_Var ''allowed_san_uris'')
           (ast_Array (map ast_String [''spiffe://cluster/ns/default/sa/foo'']))
         # uriCheckBody)
   \<and> \<not> satisfied (\<lambda>f args. None)
        [(''san_uris'',
          RArray (map uri_value
            [\<lparr>Scheme = ''spiffe'', Host = ''cluster'', Path = ''/ns/default/sa/foo'',
              RawQuery = ''x=1'', Fragment = ''frag''\<rparr>]))]
        (Assign (ast_Var ''allowed_san_uris'')
           (ast_Array (map ast_String
             [''spiffe://cluster/ns/default/sa/foo/'',
              ''spiffe://cluster/ns/default/sa/foo?x=1#frag'']))
         # uriCheckBody)"
proof -
  let ?u = "\<lparr>Scheme = ''spiffe'', Host = ''cluster'', Path = ''/ns/default/sa/foo'',
              RawQuery = ''x=1'', Fragment = ''frag''\<rparr>"
  let ?s = "[(''san_uris'', RArray (map uri_value [?u]))]"
  let ?B = "\<lambda>(f::string) (args::rego_value list). None :: rego_value option"
  have p: "list_all (url_Parse example_lib) [''spiffe://cluster/ns/default/sa/foo'']"
    by (simp add: example_lib_def)
  have m: "map_of ?s ''san_uris'' = Some (RArray (map uri_value [?u]))"
    by simp
  note t1 = addSanURICondition_reconstructs
    [of example_lib "[''spiffe://cluster/ns/default/sa/foo'']" clientCertificateBaseBody
      ?s "[?u]" ?B, folded uriCheckBody_def]
  note t2 = addSanURICondition_reconstructs
    [of example_lib "[''spiffe://cluster/ns/default/sa/foo/'',
              ''spiffe://cluster/ns/default/sa/foo?x=1#frag'']" clientCertificateBaseBody
      ?s "[?u]" ?B, folded uriCheckBody_def]
  from t1 p have 1: "addSanURICondition example_lib clientCertificateBaseBody
        (parser_Array (map parser_String [''spiffe://cluster/ns/default/sa/foo'']))
       = Inr (clientCertificateBaseBody @
           Assign (ast_Var ''allowed_san_uris'')
             (ast_Array (map ast_String [''spiffe://cluster/ns/default/sa/foo'']))
           # uriCheckBody)"
    by simp
  from t1 m have 2: "satisfied ?B ?s
        (Assign (ast_Var ''allowed_san_uris'')
           (ast_Array (map ast_String [''spiffe://cluster/ns/default/sa/foo'']))
         # uriCheckBody)"
    by simp
  from t2 m have 3: "\<not> satisfied ?B ?s
        (Assign (ast_Var ''allowed_san_uris'')
           (ast_Array (map ast_String
             [''spiffe://cluster/ns/default/sa/foo/'',
              ''spiffe://cluster/ns/default/sa/foo?x=1#frag'']))
         # uriCheckBody)"
    by simp
  from p m 1 2 3 show ?thesis by blast
qed

section \<open>Examples of the specification\<close>

text \<open>The DNS names that the specification lists as accepted and as refused.\<close>

lemma rxDNSName_examples:
  "rxDNSName ''a.example.com''" "\<not> rxDNSName ''-bad.example.com''"
  "rxDNSName ''a_b.example.com''" "rxDNSName ''example.com.''" "\<not> rxDNSName ''a..b''"
  by code_simp+

text \<open>
  A \<^verbatim>\<open>fingerprint\<close> condition with one short and one long form: the allow-list holds
  the two canonical fingerprints, in the order of the configuration.
\<close>

lemma fingerprint_example:
  "GenerateRule example_lib id
     (parser_Object
       [(''fingerprint'',
         parser_Array
           [parser_String ''aaaaaaaaaaaaaaaaaaaaaaaaaaaaaaaaaaaaaaaaaaaaaaaaaaaaaaaaaaaaaaaa'',
            parser_String ''00:11:22:33:44:55:66:77:88:99:AA:BB:CC:DD:EE:FF:00:11:22:33:44:55:66:77:88:99:AA:BB:CC:DD:EE:FF''])])
     = Inr (NewCriterionRule Name ReasonClientCertificateOK ReasonClientCertificateUnauthorized
             (clientCertificateBaseBody @
               [Assign (ast_Var ''allowed_fingerprints'')
                  (ast_Array
                    [ast_String ''aaaaaaaaaaaaaaaaaaaaaaaaaaaaaaaaaaaaaaaaaaaaaaaaaaaaaaaaaaaaaaaa'',
                     ast_String ''00112233445566778899aabbccddeeff00112233445566778899aabbccddeeff'']),
                Equal (ast_Var ''fingerprint'') (ast_Var ''allowed_fingerprints[_]'')]),
            [])"
proof -
  have s: "shortCertFingerprintRE ''aaaaaaaaaaaaaaaaaaaaaaaaaaaaaaaaaaaaaaaaaaaaaaaaaaaaaaaaaaaaaaaa''"
    by code_simp
  have l: "longCertFingerprintRE
      ''00:11:22:33:44:55:66:77:88:99:AA:BB:CC:DD:EE:FF:00:11:22:33:44:55:66:77:88:99:AA:BB:CC:DD:EE:FF''"
    by code_simp
  have c: "ToLower (ReplaceAll_colon
      ''00:11:22:33:44:55:66:77:88:99:AA:BB:CC:DD:EE:FF:00:11:22:33:44:55:66:77:88:99:AA:BB:CC:DD:EE:FF'')
    = ''00112233445566778899aabbccddeeff00112233445566778899aabbccddeeff''"
    by code_simp
  show ?thesis
    by (simp add: GenerateRule_def switch_k_def addCertFingerprintCondition_def
        canonical_short [OF s] canonical_long [OF l long_not_short [OF l]] c)
qed

end
